theory Spec2Isabelle
  imports Main "HOL-Library.Word"
begin

section \<open>Data model\<close>

text \<open>
  The record store is modelled as one record of tables, each table a list of rows in
  insertion order. Row ids are the opaque unique keys that the store issues; they are
  modelled as natural numbers drawn from the counter \<open>nextId\<close>. A \<open>Date\<close> is its
  millisecond timestamp, \<open>Date | null\<close> an \<open>int option\<close>. Every operation reads the
  clock once (\<open>now\<close>), and operations run one after the other. A write to the store
  does not fail, except the update of a row that does not exist. The request provenance
  that the operations only copy into the audit trail (user id, IP address, user agent) is
  left out of the audit rows.
\<close>

type_synonym ident = nat
type_synonym time = int

text \<open>
  A message text is a JavaScript string, a sequence of UTF-16 code units. The other texts
  of the program (tokens, addresses, error messages, ciphertext blobs) are only compared,
  split and measured, and are kept as \<open>string\<close>; so are byte buffers.
\<close>

type_synonym jsstring = "16 word list"

datatype SwitchStatus =
  ACTIVE | OVERDUE | GRACE_PERIOD | PENDING_VERIFICATION | VERIFIED | EXECUTED | CANCELED | PAUSED

record Switch =
  sw_id :: ident
  status :: SwitchStatus
  checkInIntervalDays :: int
  gracePeriodDays :: int
  verificationWindowDays :: int
  finalDelayHours :: int
  useVerifiers :: bool
  requiredConfirmations :: int
  lastCheckInAt :: "time option"
  nextCheckInDueAt :: "time option"
  gracePeriodEndsAt :: "time option"
  scheduledExecutionAt :: "time option"

datatype RequestResult = confirmed | denied | expired

datatype VoteOutcome = result_pending | result_confirmed | result_denied

record VerificationRequest =
  vr_id :: ident
  vr_switchId :: ident
  vr_expiresAt :: time
  vr_requiredConfirmations :: int
  vr_completedAt :: "time option"
  vr_result :: "RequestResult option"

record VerificationToken =
  vt_id :: ident
  vt_verificationRequestId :: ident
  vt_verifierId :: ident
  vt_token :: string
  vt_otp :: "string option"
  vt_otpExpiresAt :: "time option"
  vt_expiresAt :: time
  vt_usedAt :: "time option"

datatype VerificationVote = CONFIRM | DENY

record VerificationVoteRecord =
  vv_id :: ident
  vv_verificationRequestId :: ident
  vv_verifierId :: ident
  vv_vote :: VerificationVote
  vv_votedAt :: time

record Recipient =
  rc_id :: ident
  rc_switchId :: ident
  rc_email :: string
  rc_name :: "string option"

record Message =
  msg_id :: ident
  msg_switchId :: ident
  msg_recipientId :: ident
  msg_encryptedContent :: string
  msg_subject :: "string option"

datatype EmailDeliveryStatus = PENDING | SENT | FAILED

record EmailDelivery =
  ed_id :: ident
  ed_messageId :: ident
  ed_status :: EmailDeliveryStatus
  ed_providerMessageId :: "string option"
  ed_errorMessage :: "string option"
  ed_retryCount :: int

record CheckInToken =
  ct_id :: ident
  ct_switchId :: ident
  ct_token :: string
  ct_expiresAt :: time
  ct_usedAt :: "time option"

datatype EntityType = ET_SWITCH | ET_VERIFICATION_REQUEST | ET_VERIFICATION_VOTE | ET_EMAIL_DELIVERY

datatype AuditAction =
  SWITCH_STATUS_CHANGED | SWITCH_CHECKED_IN | SWITCH_EXECUTED | MESSAGE_SENT
  | VERIFICATION_VOTE_SUBMITTED | VERIFICATION_EXPIRED
  | VERIFICATION_OTP_VERIFIED | VERIFICATION_OTP_FAILED

datatype AuditMeta =
  MetaStatus SwitchStatus SwitchStatus
  | MetaVote ident ident VerificationVote
  | MetaExpiry ident
  | MetaExecuted nat bool
  | MetaSent ident string "string option"
  | MetaOtp "ident option" string
  | MetaVerifier ident

record AuditLog =
  al_entityType :: EntityType
  al_entityId :: "ident option"
  al_action :: AuditAction
  al_metadata :: AuditMeta

record Mail =
  mail_to :: string
  mail_toName :: "string option"
  mail_subject :: string
  mail_text :: jsstring

record db =
  switches :: "Switch list"
  verificationRequests :: "VerificationRequest list"
  verificationTokens :: "VerificationToken list"
  votes :: "VerificationVoteRecord list"
  recipients :: "Recipient list"
  messages :: "Message list"
  emailDeliveries :: "EmailDelivery list"
  checkInTokens :: "CheckInToken list"
  auditLogs :: "AuditLog list"
  outbox :: "Mail list"
  nextId :: ident

text \<open>A thrown \<open>Error\<close> is its message.\<close>

datatype error = Error string

section \<open>Store primitives\<close>

definition findSwitch :: "db \<Rightarrow> ident \<Rightarrow> Switch option" where
  "findSwitch d i = find (\<lambda>s. sw_id s = i) (switches d)"

definition updateSwitch :: "ident \<Rightarrow> (Switch \<Rightarrow> Switch) \<Rightarrow> db \<Rightarrow> db" where
  "updateSwitch i f d = d\<lparr>switches := map (\<lambda>s. if sw_id s = i then f s else s) (switches d)\<rparr>"

definition auditLogCreate :: "AuditLog \<Rightarrow> db \<Rightarrow> db" where
  "auditLogCreate a d = d\<lparr>auditLogs := auditLogs d @ [a]\<rparr>"

section \<open>State machine (types/switch.ts, lib/stateMachine.ts)\<close>

fun VALID_TRANSITIONS :: "SwitchStatus \<Rightarrow> SwitchStatus list" where
  "VALID_TRANSITIONS ACTIVE = [OVERDUE, CANCELED, PAUSED]"
| "VALID_TRANSITIONS OVERDUE = [GRACE_PERIOD, ACTIVE, CANCELED, PAUSED]"
| "VALID_TRANSITIONS GRACE_PERIOD = [PENDING_VERIFICATION, ACTIVE, CANCELED, PAUSED, VERIFIED]"
| "VALID_TRANSITIONS PENDING_VERIFICATION = [VERIFIED, ACTIVE, CANCELED, PAUSED]"
| "VALID_TRANSITIONS VERIFIED = [EXECUTED, ACTIVE, CANCELED, PAUSED]"
| "VALID_TRANSITIONS EXECUTED = []"
| "VALID_TRANSITIONS CANCELED = [ACTIVE]"
| "VALID_TRANSITIONS PAUSED = [ACTIVE, CANCELED]"

definition isValidTransition :: "SwitchStatus \<Rightarrow> SwitchStatus \<Rightarrow> bool" where
  "isValidTransition from to = (to \<in> set (VALID_TRANSITIONS from))"

fun statusName :: "SwitchStatus \<Rightarrow> string" where
  "statusName ACTIVE = ''ACTIVE''"
| "statusName OVERDUE = ''OVERDUE''"
| "statusName GRACE_PERIOD = ''GRACE_PERIOD''"
| "statusName PENDING_VERIFICATION = ''PENDING_VERIFICATION''"
| "statusName VERIFIED = ''VERIFIED''"
| "statusName EXECUTED = ''EXECUTED''"
| "statusName CANCELED = ''CANCELED''"
| "statusName PAUSED = ''PAUSED''"

record StateTransitionResult =
  success :: bool
  previousStatus :: SwitchStatus
  newStatus :: SwitchStatus
  error :: "string option"

definition msPerDay :: int where "msPerDay = 24 * 60 * 60 * 1000"
definition msPerHour :: int where "msPerHour = 60 * 60 * 1000"

text \<open>The \<open>switch (newStatus)\<close> block of \<open>transitionSwitchState\<close>: the field updates
  that go with the target status.\<close>

fun updateData :: "time \<Rightarrow> Switch \<Rightarrow> SwitchStatus \<Rightarrow> Switch \<Rightarrow> Switch" where
  "updateData now cur ACTIVE s =
     s\<lparr>status := ACTIVE, lastCheckInAt := Some now,
       nextCheckInDueAt := Some (now + checkInIntervalDays cur * msPerDay),
       gracePeriodEndsAt := None, scheduledExecutionAt := None\<rparr>"
| "updateData now cur GRACE_PERIOD s =
     s\<lparr>status := GRACE_PERIOD,
       gracePeriodEndsAt := Some (now + gracePeriodDays cur * msPerDay)\<rparr>"
| "updateData now cur VERIFIED s =
     s\<lparr>status := VERIFIED,
       scheduledExecutionAt := Some (now + finalDelayHours cur * msPerHour)\<rparr>"
| "updateData now cur EXECUTED s =
     s\<lparr>status := EXECUTED, nextCheckInDueAt := None,
       gracePeriodEndsAt := None, scheduledExecutionAt := None\<rparr>"
| "updateData now cur CANCELED s =
     s\<lparr>status := CANCELED, nextCheckInDueAt := None,
       gracePeriodEndsAt := None, scheduledExecutionAt := None\<rparr>"
| "updateData now cur target s = s\<lparr>status := target\<rparr>"

definition transitionSwitchState ::
  "time \<Rightarrow> db \<Rightarrow> ident \<Rightarrow> SwitchStatus \<Rightarrow> db \<times> StateTransitionResult" where
  "transitionSwitchState now d switchId target =
     (case findSwitch d switchId of
        None \<Rightarrow>
          (d, \<lparr>success = False, previousStatus = ACTIVE, newStatus = target,
               error = Some ''Switch not found''\<rparr>)
      | Some currentSwitch \<Rightarrow>
          let prev = status currentSwitch in
          if \<not> isValidTransition prev target then
            (d, \<lparr>success = False, previousStatus = prev, newStatus = target,
                 error = Some (''Invalid transition from '' @ statusName prev @ '' to ''
                               @ statusName target)\<rparr>)
          else
            (auditLogCreate
               \<lparr>al_entityType = ET_SWITCH, al_entityId = Some switchId,
                al_action = SWITCH_STATUS_CHANGED, al_metadata = MetaStatus prev target\<rparr>
               (updateSwitch switchId (updateData now currentSwitch target) d),
             \<lparr>success = True, previousStatus = prev, newStatus = target, error = None\<rparr>))"

definition validCheckInStates :: "SwitchStatus list" where
  "validCheckInStates = [ACTIVE, OVERDUE, GRACE_PERIOD, PENDING_VERIFICATION, VERIFIED]"

definition completeOpenRequests :: "time \<Rightarrow> ident \<Rightarrow> db \<Rightarrow> db" where
  "completeOpenRequests now switchId d =
     d\<lparr>verificationRequests :=
         map (\<lambda>r. if vr_switchId r = switchId \<and> vr_completedAt r = None
                  then r\<lparr>vr_completedAt := Some now, vr_result := Some denied\<rparr> else r)
             (verificationRequests d)\<rparr>"

definition checkIn :: "time \<Rightarrow> db \<Rightarrow> ident \<Rightarrow> db \<times> StateTransitionResult" where
  "checkIn now d switchId =
     (case findSwitch d switchId of
        None \<Rightarrow>
          (d, \<lparr>success = False, previousStatus = ACTIVE, newStatus = ACTIVE,
               error = Some ''Switch not found''\<rparr>)
      | Some currentSwitch \<Rightarrow>
          let prev = status currentSwitch in
          if prev \<notin> set validCheckInStates then
            (d, \<lparr>success = False, previousStatus = prev, newStatus = ACTIVE,
                 error = Some (''Cannot check in from '' @ statusName prev @ '' state'')\<rparr>)
          else
            (auditLogCreate
               \<lparr>al_entityType = ET_SWITCH, al_entityId = Some switchId,
                al_action = SWITCH_CHECKED_IN, al_metadata = MetaStatus prev ACTIVE\<rparr>
               (completeOpenRequests now switchId
                 (updateSwitch switchId
                    (\<lambda>s. s\<lparr>status := ACTIVE, lastCheckInAt := Some now,
                            nextCheckInDueAt := Some (now + checkInIntervalDays currentSwitch * msPerDay),
                            gracePeriodEndsAt := None, scheduledExecutionAt := None\<rparr>) d)),
             \<lparr>success = True, previousStatus = prev, newStatus = ACTIVE, error = None\<rparr>))"


section \<open>Verification votes (lib/verificationSystem.ts)\<close>

text \<open>
  Prisma's \<open>update\<close> of a row that does not exist throws; inside \<open>$transaction\<close> the
  throw rolls every write of the block back, so a failed block leaves the store as it was.
\<close>

definition txSwitchUpdate :: "ident \<Rightarrow> (Switch \<Rightarrow> Switch) \<Rightarrow> db \<Rightarrow> error + db" where
  "txSwitchUpdate i f d =
     (case findSwitch d i of
        None \<Rightarrow> Inl (Error ''Record to update not found.'')
      | Some _ \<Rightarrow> Inr (updateSwitch i f d))"

definition findRequest :: "db \<Rightarrow> ident \<Rightarrow> VerificationRequest option" where
  "findRequest d i = find (\<lambda>r. vr_id r = i) (verificationRequests d)"

definition updateRequest :: "ident \<Rightarrow> (VerificationRequest \<Rightarrow> VerificationRequest) \<Rightarrow> db \<Rightarrow> db" where
  "updateRequest i f d =
     d\<lparr>verificationRequests := map (\<lambda>r. if vr_id r = i then f r else r) (verificationRequests d)\<rparr>"

definition txRequestUpdate ::
  "ident \<Rightarrow> (VerificationRequest \<Rightarrow> VerificationRequest) \<Rightarrow> db \<Rightarrow> error + db" where
  "txRequestUpdate i f d =
     (case findRequest d i of
        None \<Rightarrow> Inl (Error ''Record to update not found.'')
      | Some _ \<Rightarrow> Inr (updateRequest i f d))"

definition findToken :: "db \<Rightarrow> string \<Rightarrow> VerificationToken option" where
  "findToken d t = find (\<lambda>k. vt_token k = t) (verificationTokens d)"

definition markTokenUsed :: "time \<Rightarrow> ident \<Rightarrow> db \<Rightarrow> db" where
  "markTokenUsed now i d =
     d\<lparr>verificationTokens :=
         map (\<lambda>k. if vt_id k = i then k\<lparr>vt_usedAt := Some now\<rparr> else k) (verificationTokens d)\<rparr>"

definition findVote :: "db \<Rightarrow> ident \<Rightarrow> ident \<Rightarrow> VerificationVoteRecord option" where
  "findVote d requestId verifierId =
     find (\<lambda>v. vv_verificationRequestId v = requestId \<and> vv_verifierId v = verifierId) (votes d)"

definition voteCreate :: "time \<Rightarrow> ident \<Rightarrow> ident \<Rightarrow> VerificationVote \<Rightarrow> db \<Rightarrow> VerificationVoteRecord \<times> db" where
  "voteCreate now requestId verifierId v d =
     (let row = \<lparr>vv_id = nextId d, vv_verificationRequestId = requestId,
                  vv_verifierId = verifierId, vv_vote = v, vv_votedAt = now\<rparr>
      in (row, d\<lparr>votes := votes d @ [row], nextId := Suc (nextId d)\<rparr>))"

definition countConfirm :: "db \<Rightarrow> ident \<Rightarrow> nat" where
  "countConfirm d requestId =
     length (filter (\<lambda>v. vv_verificationRequestId v = requestId \<and> vv_vote v = CONFIRM) (votes d))"

text \<open>
  The checks of \<open>submitVerificationVote\<close> before its transaction, the same in both
  variants of the file. The token row is read with its request, and the request with its
  switch; a row whose parent is missing cannot exist under the store's foreign keys, and
  the model turns that case into a thrown error.
\<close>

definition voteChecks ::
  "time \<Rightarrow> db \<Rightarrow> string \<Rightarrow> error + (VerificationToken \<times> VerificationRequest \<times> Switch)" where
  "voteChecks now d tok =
     (case findToken d tok of
        None \<Rightarrow> Inl (Error ''Invalid verification token'')
      | Some verificationToken \<Rightarrow>
          (case findRequest d (vt_verificationRequestId verificationToken) of
             None \<Rightarrow> Inl (Error ''Foreign key violation'')
           | Some verificationRequest \<Rightarrow>
               (case findSwitch d (vr_switchId verificationRequest) of
                  None \<Rightarrow> Inl (Error ''Foreign key violation'')
                | Some sw \<Rightarrow>
                    if vt_expiresAt verificationToken < now then
                      Inl (Error ''Verification token has expired'')
                    else if vt_usedAt verificationToken \<noteq> None then
                      Inl (Error ''This token has already been used'')
                    else if vr_completedAt verificationRequest \<noteq> None then
                      Inl (Error ''This verification request has already been completed'')
                    else if findVote d (vr_id verificationRequest) (vt_verifierId verificationToken) \<noteq> None then
                      Inl (Error ''You have already submitted a vote for this verification'')
                    else Inr (verificationToken, verificationRequest, sw))))"

text \<open>The part of the transaction that both variants share after a CONFIRM vote has been
  inserted: recount, and on quorum complete the request and move the switch.\<close>

definition confirmTail ::
  "time \<Rightarrow> VerificationRequest \<Rightarrow> Switch \<Rightarrow> VerificationVoteRecord \<Rightarrow> db
     \<Rightarrow> error + (db \<times> VerificationVoteRecord \<times> VoteOutcome)" where
  "confirmTail now verificationRequest sw row d =
     (let confirmVotes = countConfirm d (vr_id verificationRequest) in
      if int confirmVotes \<ge> vr_requiredConfirmations verificationRequest then
        (case txRequestUpdate (vr_id verificationRequest)
                (\<lambda>r. r\<lparr>vr_completedAt := Some now, vr_result := Some confirmed\<rparr>) d of
           Inl e \<Rightarrow> Inl e
         | Inr d1 \<Rightarrow>
             (case txSwitchUpdate (vr_switchId verificationRequest)
                     (\<lambda>s. s\<lparr>status := VERIFIED,
                             scheduledExecutionAt := Some (now + finalDelayHours sw * msPerHour)\<rparr>) d1 of
                Inl e \<Rightarrow> Inl e
              | Inr d2 \<Rightarrow> Inr (d2, row, result_confirmed)))
      else Inr (d, row, result_pending))"

definition voteHead ::
  "time \<Rightarrow> VerificationToken \<Rightarrow> VerificationRequest \<Rightarrow> VerificationVote \<Rightarrow> db
     \<Rightarrow> VerificationVoteRecord \<times> db" where
  "voteHead now verificationToken verificationRequest v d =
     (let (row, d1) = voteCreate now (vr_id verificationRequest) (vt_verifierId verificationToken) v
                        (markTokenUsed now (vt_id verificationToken) d)
      in (row, auditLogCreate
                 \<lparr>al_entityType = ET_VERIFICATION_VOTE, al_entityId = Some (vv_id row),
                  al_action = VERIFICATION_VOTE_SUBMITTED,
                  al_metadata = MetaVote (vr_id verificationRequest) (vt_verifierId verificationToken) v\<rparr>
                 d1))"

text \<open>\<open>submitVerificationVote\<close> of the OTP-era file: a DENY pauses the switch.\<close>

definition submitVerificationVote ::
  "time \<Rightarrow> db \<Rightarrow> string \<Rightarrow> VerificationVote
     \<Rightarrow> error + (db \<times> VerificationVoteRecord \<times> VoteOutcome)" where
  "submitVerificationVote now d tok v =
     (case voteChecks now d tok of
        Inl e \<Rightarrow> Inl e
      | Inr (verificationToken, verificationRequest, sw) \<Rightarrow>
          let (row, d1) = voteHead now verificationToken verificationRequest v d in
          if v = DENY then
            (case txRequestUpdate (vr_id verificationRequest)
                    (\<lambda>r. r\<lparr>vr_completedAt := Some now, vr_result := Some denied\<rparr>) d1 of
               Inl e \<Rightarrow> Inl e
             | Inr d2 \<Rightarrow>
                 (case txSwitchUpdate (vr_switchId verificationRequest)
                         (\<lambda>s. s\<lparr>status := PAUSED, gracePeriodEndsAt := None,
                                 scheduledExecutionAt := None\<rparr>) d2 of
                    Inl e \<Rightarrow> Inl e
                  | Inr d3 \<Rightarrow> Inr (d3, row, result_denied)))
          else confirmTail now verificationRequest sw row d1)"

text \<open>\<open>submitVerificationVote\<close> of the older file: a DENY resets the switch to ACTIVE
  with fresh check-in timers.\<close>

definition submitVerificationVote_legacy ::
  "time \<Rightarrow> db \<Rightarrow> string \<Rightarrow> VerificationVote
     \<Rightarrow> error + (db \<times> VerificationVoteRecord \<times> VoteOutcome)" where
  "submitVerificationVote_legacy now d tok v =
     (case voteChecks now d tok of
        Inl e \<Rightarrow> Inl e
      | Inr (verificationToken, verificationRequest, sw) \<Rightarrow>
          let (row, d1) = voteHead now verificationToken verificationRequest v d in
          if v = DENY then
            (case txRequestUpdate (vr_id verificationRequest)
                    (\<lambda>r. r\<lparr>vr_completedAt := Some now, vr_result := Some denied\<rparr>) d1 of
               Inl e \<Rightarrow> Inl e
             | Inr d2 \<Rightarrow>
                 (case txSwitchUpdate (vr_switchId verificationRequest)
                         (\<lambda>s. s\<lparr>status := ACTIVE, lastCheckInAt := Some now,
                                 nextCheckInDueAt := Some (now + checkInIntervalDays sw * msPerDay),
                                 gracePeriodEndsAt := None, scheduledExecutionAt := None\<rparr>) d2 of
                    Inl e \<Rightarrow> Inl e
                  | Inr d3 \<Rightarrow> Inr (d3, row, result_denied)))
          else confirmTail now verificationRequest sw row d1)"


definition otpFailed :: "ident option \<Rightarrow> ident option \<Rightarrow> string \<Rightarrow> db \<Rightarrow> db" where
  "otpFailed requestId verifierId reason d =
     auditLogCreate
       \<lparr>al_entityType = ET_VERIFICATION_REQUEST, al_entityId = requestId,
        al_action = VERIFICATION_OTP_FAILED, al_metadata = MetaOtp verifierId reason\<rparr> d"

record OtpVoteResult =
  ov_success :: bool
  ov_result :: VoteOutcome
  ov_error :: "string option"

definition verifyOtp :: "(string \<Rightarrow> string) \<Rightarrow> string \<Rightarrow> string \<Rightarrow> bool" where
  "verifyOtp hashOtp otp h = (hashOtp otp = h)"

text \<open>
  \<open>verifyOtpAndVote\<close>: the entry point that checks the OTP. \<open>hashOtp\<close> (SHA-256, hex) is a
  parameter. Failed checks are reported in the result, and some of them leave an audit
  row; only the final call of \<open>submitVerificationVote\<close> can throw, after the audit
  row of the accepted code has been written.
\<close>

definition verifyOtpAndVote ::
  "(string \<Rightarrow> string) \<Rightarrow> time \<Rightarrow> db \<Rightarrow> string \<Rightarrow> string \<Rightarrow> VerificationVote
     \<Rightarrow> db \<times> (error + OtpVoteResult)" where
  "verifyOtpAndVote hashOtp now d tok otp v =
     (case findToken d tok of
        None \<Rightarrow>
          (otpFailed None None ''Invalid token'' d,
           Inr \<lparr>ov_success = False, ov_result = result_pending,
                ov_error = Some ''Invalid verification token''\<rparr>)
      | Some verificationToken \<Rightarrow>
          let rid = vt_verificationRequestId verificationToken;
              vid = vt_verifierId verificationToken in
          if vt_expiresAt verificationToken < now then
            (otpFailed (Some rid) (Some vid) ''Token expired'' d,
             Inr \<lparr>ov_success = False, ov_result = result_pending,
                  ov_error = Some ''Verification token has expired''\<rparr>)
          else if vt_usedAt verificationToken \<noteq> None then
            (d, Inr \<lparr>ov_success = False, ov_result = result_pending,
                     ov_error = Some ''This token has already been used''\<rparr>)
          else if (case vt_otpExpiresAt verificationToken of None \<Rightarrow> False | Some t \<Rightarrow> t < now) then
            (otpFailed (Some rid) (Some vid) ''OTP expired'' d,
             Inr \<lparr>ov_success = False, ov_result = result_pending,
                  ov_error = Some ''Verification code has expired''\<rparr>)
          else if (case vt_otp verificationToken of
                     None \<Rightarrow> True
                   | Some h \<Rightarrow> h = [] \<or> \<not> verifyOtp hashOtp otp h) then
            (otpFailed (Some rid) (Some vid) ''Invalid OTP'' d,
             Inr \<lparr>ov_success = False, ov_result = result_pending,
                  ov_error = Some ''Invalid verification code''\<rparr>)
          else
            (case findRequest d rid of
               None \<Rightarrow> (d, Inl (Error ''Foreign key violation''))
             | Some verificationRequest \<Rightarrow>
                 if vr_completedAt verificationRequest \<noteq> None then
                   (d, Inr \<lparr>ov_success = False, ov_result = result_pending,
                            ov_error = Some ''This verification request has already been completed''\<rparr>)
                 else if findVote d (vr_id verificationRequest) vid \<noteq> None then
                   (d, Inr \<lparr>ov_success = False, ov_result = result_pending,
                            ov_error = Some ''You have already submitted a vote for this verification''\<rparr>)
                 else
                   (let d0 = auditLogCreate
                               \<lparr>al_entityType = ET_VERIFICATION_REQUEST,
                                al_entityId = Some (vr_id verificationRequest),
                                al_action = VERIFICATION_OTP_VERIFIED,
                                al_metadata = MetaVerifier vid\<rparr> d
                    in case submitVerificationVote now d0 tok v of
                         Inl e \<Rightarrow> (d0, Inl e)
                       | Inr (d', row, res) \<Rightarrow>
                           (d', Inr \<lparr>ov_success = True, ov_result = res, ov_error = None\<rparr>))))"

subsection \<open>The verify endpoint (app/api/verify/route.ts, vote submission)\<close>

text \<open>
  The JSON body of the request, with the fields the handler reads; an absent field is
  \<open>None\<close>. The handler's code after its \<open>accept-invite\<close> branch is modelled, that
  is, every request whose \<open>action\<close> query parameter is not \<open>accept-invite\<close>.
\<close>

record VoteBody =
  body_token :: "string option"
  body_otp :: "string option"
  body_vote :: "string option"

datatype Response =
  Ok200 "VerificationVoteRecord option" VoteOutcome
  | Bad400 string
  | Invalid400

definition parseVote :: "string option \<Rightarrow> VerificationVote option" where
  "parseVote v =
     (if v = Some ''CONFIRM'' then Some CONFIRM
      else if v = Some ''DENY'' then Some DENY else None)"

text \<open>\<open>body.otp\<close> is truthy when the field is present and not the empty string.\<close>

definition truthy :: "string option \<Rightarrow> bool" where
  "truthy f = (case f of None \<Rightarrow> False | Some s \<Rightarrow> s \<noteq> [])"

definition POST ::
  "(string \<Rightarrow> string) \<Rightarrow> time \<Rightarrow> db \<Rightarrow> VoteBody \<Rightarrow> db \<times> Response" where
  "POST hashOtp now d body =
     (if truthy (body_otp body) then
        (case (body_token body, body_otp body, parseVote (body_vote body)) of
           (Some tok, Some otp, Some v) \<Rightarrow>
             if length otp \<noteq> 6 then (d, Invalid400)
             else
               (case verifyOtpAndVote hashOtp now d tok otp v of
                  (d', Inl (Error m)) \<Rightarrow> (d', Bad400 m)
                | (d', Inr r) \<Rightarrow>
                    if \<not> ov_success r then
                      (d', Bad400 (case ov_error r of None \<Rightarrow> [] | Some m \<Rightarrow> m))
                    else (d', Ok200 None (ov_result r)))
         | _ \<Rightarrow> (d, Invalid400))
      else
        (case (body_token body, parseVote (body_vote body)) of
           (Some tok, Some v) \<Rightarrow>
             (case submitVerificationVote now d tok v of
                Inl (Error m) \<Rightarrow> (d, Bad400 m)
              | Inr (d', row, res) \<Rightarrow> (d', Ok200 (Some row) res))
         | _ \<Rightarrow> (d, Invalid400)))"


section \<open>Message confidentiality (lib/encryption.ts)\<close>

text \<open>
  \<open>cipher.update(plaintext, 'utf8', ...)\<close> encodes the JavaScript string as UTF-8 before
  it encrypts: a surrogate pair becomes one code point, and a surrogate that has no
  partner becomes U+FFFD.
\<close>

definition isHighSurrogate :: "16 word \<Rightarrow> bool" where
  "isHighSurrogate u = (0xD800 \<le> u \<and> u \<le> 0xDBFF)"

definition isLowSurrogate :: "16 word \<Rightarrow> bool" where
  "isLowSurrogate u = (0xDC00 \<le> u \<and> u \<le> 0xDFFF)"

definition loneUnit :: "16 word \<Rightarrow> nat" where
  "loneUnit u = (if isHighSurrogate u \<or> isLowSurrogate u then 0xFFFD else unat u)"

fun codePoints :: "jsstring \<Rightarrow> nat list" where
  "codePoints [] = []"
| "codePoints [u] = [loneUnit u]"
| "codePoints (u # l # rest) =
     (if isHighSurrogate u \<and> isLowSurrogate l
      then (0x10000 + (unat u - 0xD800) * 0x400 + (unat l - 0xDC00)) # codePoints rest
      else loneUnit u # codePoints (l # rest))"

definition utf8Bytes :: "nat \<Rightarrow> string" where
  "utf8Bytes cp =
     (if cp < 0x80 then [char_of cp]
      else if cp < 0x800 then
        [char_of (0xC0 + cp div 0x40), char_of (0x80 + cp mod 0x40)]
      else if cp < 0x10000 then
        [char_of (0xE0 + cp div 0x1000), char_of (0x80 + cp div 0x40 mod 0x40),
         char_of (0x80 + cp mod 0x40)]
      else
        [char_of (0xF0 + cp div 0x40000), char_of (0x80 + cp div 0x1000 mod 0x40),
         char_of (0x80 + cp div 0x40 mod 0x40), char_of (0x80 + cp mod 0x40)])"

definition utf8Encode :: "jsstring \<Rightarrow> string" where
  "utf8Encode s = concat (map utf8Bytes (codePoints s))"

text \<open>
  The primitives of Node's \<open>crypto\<close> module, its UTF-8 decoder and the process
  environment are taken as parameters. \<open>gcmSeal key iv bytes\<close> is the ciphertext and the
  authentication tag of AES-256-GCM; \<open>gcmOpen key iv tag ciphertext\<close> is the decrypted
  bytes, or the error that \<open>createDecipheriv\<close>, \<open>setAuthTag\<close> or \<open>final\<close> throws;
  \<open>utf8Decode\<close> is the decoding that \<open>decipher.update(..., 'utf8')\<close> and
  \<open>decipher.final('utf8')\<close> apply to those bytes.
\<close>

record crypto =
  ENCRYPTION_KEY :: "string option"
  fromHex :: "string \<Rightarrow> string"
  scryptSync :: "string \<Rightarrow> string \<Rightarrow> nat \<Rightarrow> string"
  gcmSeal :: "string \<Rightarrow> string \<Rightarrow> string \<Rightarrow> string \<times> string"
  gcmOpen :: "string \<Rightarrow> string \<Rightarrow> string \<Rightarrow> string \<Rightarrow> error + string"
  toBase64 :: "string \<Rightarrow> string"
  fromBase64 :: "string \<Rightarrow> string"
  utf8Decode :: "string \<Rightarrow> jsstring"

definition KEY_LENGTH :: nat where "KEY_LENGTH = 32"

definition getEncryptionKey :: "crypto \<Rightarrow> error + string" where
  "getEncryptionKey cr =
     (case ENCRYPTION_KEY cr of
        None \<Rightarrow> Inl (Error ''ENCRYPTION_KEY must be 64 hex characters'')
      | Some key \<Rightarrow>
          if key = [] \<or> length key \<noteq> 64
          then Inl (Error ''ENCRYPTION_KEY must be 64 hex characters'')
          else Inr (fromHex cr key))"

text \<open>JavaScript's \<open>s.split(c)\<close> and \<open>parts.join(c)\<close> for a one-character separator.\<close>

fun splitOn :: "char \<Rightarrow> string \<Rightarrow> string list" where
  "splitOn c [] = [[]]"
| "splitOn c (x # xs) =
     (if x = c then [] # splitOn c xs
      else (case splitOn c xs of [] \<Rightarrow> [[x]] | p # ps \<Rightarrow> (x # p) # ps))"

fun joinWith :: "char \<Rightarrow> string list \<Rightarrow> string" where
  "joinWith c [] = []"
| "joinWith c [p] = p"
| "joinWith c (p # q # ps) = p @ c # joinWith c (q # ps)"

text \<open>\<open>encrypt\<close>, with the two \<open>randomBytes\<close> draws as arguments; the result is the
  pair of the fields \<open>encrypted\<close> and \<open>iv\<close>.\<close>

definition encrypt :: "crypto \<Rightarrow> string \<Rightarrow> string \<Rightarrow> jsstring \<Rightarrow> error + (string \<times> string)" where
  "encrypt cr iv salt plaintext =
     (case getEncryptionKey cr of
        Inl e \<Rightarrow> Inl e
      | Inr key \<Rightarrow>
          let derivedKey = scryptSync cr key salt KEY_LENGTH;
              (ciphertext, authTag) = gcmSeal cr derivedKey iv (utf8Encode plaintext);
              encrypted = toBase64 cr ciphertext
          in Inr (joinWith CHR '':''
                    [toBase64 cr salt, toBase64 cr iv, toBase64 cr authTag, encrypted],
                  toBase64 cr iv))"

text \<open>The body of the \<open>try\<close> block of \<open>decrypt\<close>, with the error each step throws.\<close>

definition decryptBody :: "crypto \<Rightarrow> string \<Rightarrow> error + jsstring" where
  "decryptBody cr encryptedData =
     (case getEncryptionKey cr of
        Inl e \<Rightarrow> Inl e
      | Inr key \<Rightarrow>
          (case splitOn CHR '':'' encryptedData of
             [saltB64, ivB64, authTagB64, encrypted] \<Rightarrow>
               if saltB64 = [] \<or> ivB64 = [] \<or> authTagB64 = [] \<or> encrypted = []
               then Inl (Error ''Decryption failed'')
               else
                 let salt = fromBase64 cr saltB64;
                     iv = fromBase64 cr ivB64;
                     authTag = fromBase64 cr authTagB64;
                     derivedKey = scryptSync cr key salt KEY_LENGTH
                 in (case gcmOpen cr derivedKey iv authTag (fromBase64 cr encrypted) of
                       Inl e \<Rightarrow> Inl e
                     | Inr bytes \<Rightarrow> Inr (utf8Decode cr bytes))
           | _ \<Rightarrow> Inl (Error ''Decryption failed'')))"

text \<open>\<open>decrypt\<close>: the \<open>catch\<close> replaces whatever was thrown.\<close>

definition decrypt :: "crypto \<Rightarrow> string \<Rightarrow> error + jsstring" where
  "decrypt cr encryptedData =
     (case decryptBody cr encryptedData of
        Inl _ \<Rightarrow> Inl (Error ''Decryption failed'')
      | Inr plaintext \<Rightarrow> Inr plaintext)"

section \<open>Scheduler jobs (lib/scheduler.ts) and final delivery (lib/emailService.ts)\<close>

datatype JobError =
  ErrorExpiringRequest ident error
  | FailedToSendMessage ident ident
  | FailedToMarkExecuted ident "string option"
  | ErrorExecutingSwitch ident error

record ExpiryReport =
  vx_processed :: nat
  vx_expired :: nat
  vx_errors :: "JobError list"

text \<open>The transaction of \<open>processVerificationExpiry\<close> for one request.\<close>

definition expireRequest :: "time \<Rightarrow> VerificationRequest \<Rightarrow> db \<Rightarrow> error + db" where
  "expireRequest now request d =
     (case txRequestUpdate (vr_id request)
             (\<lambda>r. r\<lparr>vr_completedAt := Some now, vr_result := Some expired\<rparr>) d of
        Inl e \<Rightarrow> Inl e
      | Inr d1 \<Rightarrow>
          (case txSwitchUpdate (vr_switchId request) (\<lambda>s. s\<lparr>status := PAUSED\<rparr>) d1 of
             Inl e \<Rightarrow> Inl e
           | Inr d2 \<Rightarrow>
               Inr (auditLogCreate
                      \<lparr>al_entityType = ET_VERIFICATION_REQUEST, al_entityId = Some (vr_id request),
                       al_action = VERIFICATION_EXPIRED,
                       al_metadata = MetaExpiry (vr_switchId request)\<rparr> d2)))"

fun expiryLoop ::
  "time \<Rightarrow> VerificationRequest list \<Rightarrow> db \<times> nat \<times> JobError list \<Rightarrow> db \<times> nat \<times> JobError list" where
  "expiryLoop now [] st = st"
| "expiryLoop now (request # rest) (d, n, errs) =
     (case expireRequest now request d of
        Inl e \<Rightarrow> expiryLoop now rest (d, n, errs @ [ErrorExpiringRequest (vr_id request) e])
      | Inr d' \<Rightarrow> expiryLoop now rest (d', Suc n, errs))"

definition expiredRequests :: "time \<Rightarrow> db \<Rightarrow> VerificationRequest list" where
  "expiredRequests now d =
     filter (\<lambda>r. vr_completedAt r = None \<and> vr_expiresAt r < now) (verificationRequests d)"

definition processVerificationExpiry :: "time \<Rightarrow> db \<Rightarrow> db \<times> ExpiryReport" where
  "processVerificationExpiry now d =
     (let rs = expiredRequests now d;
          (d', n, errs) = expiryLoop now rs (d, 0, [])
      in (d', \<lparr>vx_processed = length rs, vx_expired = n, vx_errors = errs\<rparr>))"

definition findCheckInToken :: "db \<Rightarrow> string \<Rightarrow> CheckInToken option" where
  "findCheckInToken d t = find (\<lambda>k. ct_token k = t) (checkInTokens d)"

definition verifyAndUseCheckInToken :: "time \<Rightarrow> db \<Rightarrow> string \<Rightarrow> db \<times> ident option" where
  "verifyAndUseCheckInToken now d tok =
     (case findCheckInToken d tok of
        None \<Rightarrow> (d, None)
      | Some checkInToken \<Rightarrow>
          if ct_expiresAt checkInToken < now then (d, None)
          else if ct_usedAt checkInToken \<noteq> None then (d, Some (ct_switchId checkInToken))
          else
            (d\<lparr>checkInTokens :=
                 map (\<lambda>k. if ct_id k = ct_id checkInToken then k\<lparr>ct_usedAt := Some now\<rparr> else k)
                     (checkInTokens d)\<rparr>,
             Some (ct_switchId checkInToken)))"


subsection \<open>Final delivery\<close>

text \<open>
  The mail transport is outside the program. \<open>outbox\<close> lists every mail for which a
  send was attempted, and the transport's answer to the \<open>n\<close>-th attempt is a parameter:
  \<open>Inr\<close> the provider's message id, or \<open>Inl\<close> the message of the error that
  \<open>getTransporter\<close> or \<open>sendMail\<close> threw. \<open>sendEmail\<close> catches that error itself.
\<close>

type_synonym transport = "nat \<Rightarrow> Mail \<Rightarrow> string + string"

record SendResult =
  se_success :: bool
  se_messageId :: "string option"
  se_error :: "string option"

definition sendEmail :: "transport \<Rightarrow> db \<Rightarrow> Mail \<Rightarrow> db \<times> SendResult" where
  "sendEmail tr d mail =
     (let d' = d\<lparr>outbox := outbox d @ [mail]\<rparr> in
      case tr (length (outbox d)) mail of
        Inr mid \<Rightarrow> (d', \<lparr>se_success = True, se_messageId = Some mid, se_error = None\<rparr>)
      | Inl e \<Rightarrow> (d', \<lparr>se_success = False, se_messageId = None, se_error = Some e\<rparr>))"

definition findSentDelivery :: "db \<Rightarrow> ident \<Rightarrow> EmailDelivery option" where
  "findSentDelivery d messageId =
     find (\<lambda>e. ed_messageId e = messageId \<and> ed_status e = SENT) (emailDeliveries d)"

definition deliveryCreate :: "ident \<Rightarrow> db \<Rightarrow> EmailDelivery \<times> db" where
  "deliveryCreate messageId d =
     (let row = \<lparr>ed_id = nextId d, ed_messageId = messageId, ed_status = PENDING,
                  ed_providerMessageId = None, ed_errorMessage = None, ed_retryCount = 0\<rparr>
      in (row, d\<lparr>emailDeliveries := emailDeliveries d @ [row], nextId := Suc (nextId d)\<rparr>))"

definition deliveryUpdate :: "ident \<Rightarrow> (EmailDelivery \<Rightarrow> EmailDelivery) \<Rightarrow> db \<Rightarrow> db" where
  "deliveryUpdate i f d =
     d\<lparr>emailDeliveries := map (\<lambda>e. if ed_id e = i then f e else e) (emailDeliveries d)\<rparr>"

definition orDefault :: "string option \<Rightarrow> string \<Rightarrow> string" where
  "orDefault f dflt = (case f of None \<Rightarrow> dflt | Some s \<Rightarrow> if s = [] then dflt else s)"

definition orUndefined :: "string option \<Rightarrow> string option" where
  "orUndefined f = (case f of None \<Rightarrow> None | Some s \<Rightarrow> if s = [] then None else Some s)"

text \<open>\<open>sendFinalMessage\<close>: the result is the pair \<open>(success, deliveryId)\<close>. It throws
  only before its first write.\<close>

definition sendFinalMessage ::
  "crypto \<Rightarrow> transport \<Rightarrow> db \<Rightarrow> ident \<Rightarrow> error + (db \<times> bool \<times> ident)" where
  "sendFinalMessage cr tr d messageId =
     (case findSentDelivery d messageId of
        Some existingDelivery \<Rightarrow> Inr (d, True, ed_id existingDelivery)
      | None \<Rightarrow>
          (case find (\<lambda>m. msg_id m = messageId) (messages d) of
             None \<Rightarrow> Inl (Error ''Message not found'')
           | Some message \<Rightarrow>
               (case find (\<lambda>r. rc_id r = msg_recipientId message) (recipients d) of
                  None \<Rightarrow> Inl (Error ''Foreign key violation'')
                | Some recipient \<Rightarrow>
                    (case decrypt cr (msg_encryptedContent message) of
                       Inl e \<Rightarrow> Inl e
                     | Inr content \<Rightarrow>
                         let (delivery, d1) = deliveryCreate messageId d;
                             (d2, result) =
                               sendEmail tr d1
                                 \<lparr>mail_to = rc_email recipient,
                                  mail_toName = orUndefined (rc_name recipient),
                                  mail_subject = orDefault (msg_subject message) ''A Final Note for You'',
                                  mail_text = content\<rparr>
                         in if se_success result then
                              Inr (auditLogCreate
                                     \<lparr>al_entityType = ET_EMAIL_DELIVERY,
                                      al_entityId = Some (ed_id delivery),
                                      al_action = MESSAGE_SENT,
                                      al_metadata = MetaSent messageId (rc_email recipient)
                                                      (se_messageId result)\<rparr>
                                     (deliveryUpdate (ed_id delivery)
                                        (\<lambda>e. e\<lparr>ed_status := SENT,
                                                ed_providerMessageId := se_messageId result\<rparr>) d2),
                                   True, ed_id delivery)
                            else
                              Inr (deliveryUpdate (ed_id delivery)
                                     (\<lambda>e. e\<lparr>ed_status := FAILED, ed_errorMessage := se_error result,
                                             ed_retryCount := ed_retryCount e + 1\<rparr>) d2,
                                   False, ed_id delivery)))))"

subsection \<open>The execution pass\<close>

record ExecutionReport =
  ex_processed :: nat
  ex_executed :: nat
  ex_errors :: "JobError list"

text \<open>The inner loop over the recipients of one switch, each with the message that the
  query attached to it (or none). A throw of \<open>sendFinalMessage\<close> leaves the loop; the
  writes and error entries made so far stay.\<close>

fun sendLoop ::
  "crypto \<Rightarrow> transport \<Rightarrow> ident \<Rightarrow> Message option list \<Rightarrow> db \<times> bool \<times> JobError list
     \<Rightarrow> (db \<times> bool \<times> JobError list) \<times> error option" where
  "sendLoop cr tr switchId [] st = (st, None)"
| "sendLoop cr tr switchId (None # rest) st = sendLoop cr tr switchId rest st"
| "sendLoop cr tr switchId (Some m # rest) (d, allSent, errs) =
     (case sendFinalMessage cr tr d (msg_id m) of
        Inl e \<Rightarrow> ((d, allSent, errs), Some e)
      | Inr (d', ok, _) \<Rightarrow>
          if ok then sendLoop cr tr switchId rest (d', allSent, errs)
          else sendLoop cr tr switchId rest
                 (d', False, errs @ [FailedToSendMessage (msg_id m) switchId]))"

text \<open>The body of the outer loop for one switch of the query result.\<close>

definition executeSwitch ::
  "crypto \<Rightarrow> transport \<Rightarrow> time \<Rightarrow> Switch \<times> Message option list \<Rightarrow> db \<times> nat \<times> JobError list
     \<Rightarrow> db \<times> nat \<times> JobError list" where
  "executeSwitch cr tr now swm st =
     (let (sw, msgs) = swm; (d, executed, errs) = st in
      case sendLoop cr tr (sw_id sw) msgs (d, True, errs) of
        ((d1, allSent, errs1), Some e) \<Rightarrow>
          (d1, executed, errs1 @ [ErrorExecutingSwitch (sw_id sw) e])
      | ((d1, allSent, errs1), None) \<Rightarrow>
          let (d2, transitionResult) = transitionSwitchState now d1 (sw_id sw) EXECUTED in
          if success transitionResult then
            (auditLogCreate
               \<lparr>al_entityType = ET_SWITCH, al_entityId = Some (sw_id sw),
                al_action = SWITCH_EXECUTED,
                al_metadata = MetaExecuted (length (filter (\<lambda>m. m \<noteq> None) msgs)) allSent\<rparr> d2,
             Suc executed, errs1)
          else (d2, executed, errs1 @ [FailedToMarkExecuted (sw_id sw) (error transitionResult)]))"

definition readyForExecution :: "time \<Rightarrow> db \<Rightarrow> (Switch \<times> Message option list) list" where
  "readyForExecution now d =
     map (\<lambda>sw. (sw, map (\<lambda>r. find (\<lambda>m. msg_recipientId m = rc_id r) (messages d))
                      (filter (\<lambda>r. rc_switchId r = sw_id sw) (recipients d))))
         (filter (\<lambda>sw. status sw = VERIFIED \<and>
                        (case scheduledExecutionAt sw of None \<Rightarrow> False | Some t \<Rightarrow> t < now))
                 (switches d))"

definition executeVerifiedSwitches ::
  "crypto \<Rightarrow> transport \<Rightarrow> time \<Rightarrow> db \<Rightarrow> db \<times> ExecutionReport" where
  "executeVerifiedSwitches cr tr now d =
     (let ready = readyForExecution now d;
          (d', n, errs) = foldl (\<lambda>st swm. executeSwitch cr tr now swm st) (d, 0, []) ready
      in (d', \<lparr>ex_processed = length ready, ex_executed = n, ex_errors = errs\<rparr>))"

section \<open>The specification's transition graph and machine runs\<close>

text \<open>The adjacency of the specification (section 4.2), written from its text, to be
  compared with \<open>VALID_TRANSITIONS\<close>.\<close>

definition specAllowed :: "SwitchStatus \<Rightarrow> SwitchStatus set" where
  "specAllowed s =
     (case s of
        ACTIVE \<Rightarrow> {OVERDUE, CANCELED, PAUSED}
      | OVERDUE \<Rightarrow> {GRACE_PERIOD, ACTIVE, CANCELED, PAUSED}
      | GRACE_PERIOD \<Rightarrow> {PENDING_VERIFICATION, VERIFIED, ACTIVE, CANCELED, PAUSED}
      | PENDING_VERIFICATION \<Rightarrow> {VERIFIED, ACTIVE, CANCELED, PAUSED}
      | VERIFIED \<Rightarrow> {EXECUTED, ACTIVE, CANCELED, PAUSED}
      | EXECUTED \<Rightarrow> {}
      | CANCELED \<Rightarrow> {ACTIVE}
      | PAUSED \<Rightarrow> {ACTIVE, CANCELED})"

text \<open>A sequence of calls of the two operations of the state machine, each with the
  time at which it runs.\<close>

datatype MachineOp = OpTransition time ident SwitchStatus | OpCheckIn time ident

fun applyOp :: "MachineOp \<Rightarrow> db \<Rightarrow> db" where
  "applyOp (OpTransition now i t) d = fst (transitionSwitchState now d i t)"
| "applyOp (OpCheckIn now i) d = fst (checkIn now d i)"

fun runOps :: "MachineOp list \<Rightarrow> db \<Rightarrow> db" where
  "runOps [] d = d"
| "runOps (p # ps) d = runOps ps (applyOp p d)"

text \<open>The error texts that \<open>checkIn\<close> has for a status it refuses.\<close>

definition isInvalidCheckInError :: "string option \<Rightarrow> bool" where
  "isInvalidCheckInError e =
     (e \<in> set (map (\<lambda>st. Some (''Cannot check in from '' @ statusName st @ '' state''))
                  [ACTIVE, OVERDUE, GRACE_PERIOD, PENDING_VERIFICATION, VERIFIED, EXECUTED,
                   CANCELED, PAUSED]))"

text \<open>The number of delivery rows with status SENT that a message has.\<close>

definition sentCount :: "db \<Rightarrow> ident \<Rightarrow> nat" where
  "sentCount d messageId =
     length (filter (\<lambda>e. ed_messageId e = messageId \<and> ed_status e = SENT) (emailDeliveries d))"

section \<open>Example stores\<close>

definition emptyDb :: db where
  "emptyDb = \<lparr>switches = [], verificationRequests = [], verificationTokens = [], votes = [],
              recipients = [], messages = [], emailDeliveries = [], checkInTokens = [],
              auditLogs = [], outbox = [], nextId = 100\<rparr>"

definition demoSwitch :: "SwitchStatus \<Rightarrow> Switch" where
  "demoSwitch st =
     \<lparr>sw_id = 5, status = st, checkInIntervalDays = 7, gracePeriodDays = 3,
      verificationWindowDays = 14, finalDelayHours = 24, useVerifiers = True,
      requiredConfirmations = 2, lastCheckInAt = Some 0, nextCheckInDueAt = None,
      gracePeriodEndsAt = None, scheduledExecutionAt = Some 1000\<rparr>"

definition demoRequest :: VerificationRequest where
  "demoRequest = \<lparr>vr_id = 10, vr_switchId = 5, vr_expiresAt = 5000,
                  vr_requiredConfirmations = 2, vr_completedAt = None, vr_result = None\<rparr>"

definition demoToken :: "ident \<Rightarrow> string \<Rightarrow> VerificationToken" where
  "demoToken verifier tok =
     \<lparr>vt_id = 30 + verifier, vt_verificationRequestId = 10, vt_verifierId = verifier,
      vt_token = tok, vt_otp = Some ''6b86b273ff34fce1'', vt_otpExpiresAt = Some 9000,
      vt_expiresAt = 5000, vt_usedAt = None\<rparr>"

text \<open>One switch with an open verification request of quorum two and three verifiers.\<close>

definition votingDb :: "SwitchStatus \<Rightarrow> db" where
  "votingDb st =
     emptyDb\<lparr>switches := [demoSwitch st], verificationRequests := [demoRequest],
             verificationTokens := [demoToken 21 ''tok-a'', demoToken 22 ''tok-b'',
                                    demoToken 23 ''tok-c'']\<rparr>"

definition demoCheckInToken :: "time option \<Rightarrow> CheckInToken" where
  "demoCheckInToken used =
     \<lparr>ct_id = 60, ct_switchId = 5, ct_token = ''chk'', ct_expiresAt = 7000, ct_usedAt = used\<rparr>"

definition demoVote :: "ident \<Rightarrow> VerificationVote \<Rightarrow> VerificationVoteRecord" where
  "demoVote verifier v =
     \<lparr>vv_id = 70 + verifier, vv_verificationRequestId = 10, vv_verifierId = verifier,
      vv_vote = v, vv_votedAt = 1500\<rparr>"

text \<open>The same store after the given votes have been cast.\<close>

definition votedDb :: "VerificationVoteRecord list \<Rightarrow> db" where
  "votedDb vs = (votingDb PENDING_VERIFICATION)\<lparr>votes := vs\<rparr>"

text \<open>The row that an accepted vote inserts.\<close>

definition newVote :: "time \<Rightarrow> db \<Rightarrow> VerificationToken \<Rightarrow> VerificationRequest \<Rightarrow> VerificationVote
    \<Rightarrow> VerificationVoteRecord" where
  "newVote now d t r v =
     \<lparr>vv_id = nextId d, vv_verificationRequestId = vr_id r, vv_verifierId = vt_verifierId t,
      vv_vote = v, vv_votedAt = now\<rparr>"


text \<open>Delivery ids come from the store's counter: every id in use lies below it.\<close>

definition deliveryIdsFresh :: "db \<Rightarrow> bool" where
  "deliveryIdsFresh d = list_all (\<lambda>e. ed_id e < nextId d) (emailDeliveries d)"

text \<open>
  A stand-in for the cryptographic primitives, used to evaluate examples only. It has
  the interfaces of the real ones and none of their security: the ciphertext is the
  plaintext, the tag is constant, the base64 encodings are the identity, and the decoder
  reads every byte as one code unit, which is UTF-8 decoding on ASCII.
\<close>

definition demoCrypto :: crypto where
  "demoCrypto =
     \<lparr>ENCRYPTION_KEY = Some (replicate 64 CHR ''0''),
      fromHex = (\<lambda>s. s),
      scryptSync = (\<lambda>key salt n. take n (salt @ key)),
      gcmSeal = (\<lambda>key iv plaintext. (plaintext, ''T'')),
      gcmOpen = (\<lambda>key iv tag ciphertext.
                   if tag = ''T'' then Inr ciphertext
                   else Inl (Error ''Unsupported state or unable to authenticate data'')),
      toBase64 = (\<lambda>b. b),
      fromBase64 = (\<lambda>s. s),
      utf8Decode = map (\<lambda>c. of_nat (of_char c))\<rparr>"

text \<open>A VERIFIED switch that is due, with two recipients and their messages.\<close>

definition deliveryDb :: "string \<Rightarrow> string \<Rightarrow> db" where
  "deliveryDb c1 c2 =
     emptyDb\<lparr>switches := [demoSwitch VERIFIED],
             recipients := [\<lparr>rc_id = 40, rc_switchId = 5, rc_email = ''ann@example.org'', rc_name = None\<rparr>,
                            \<lparr>rc_id = 41, rc_switchId = 5, rc_email = ''bob@example.org'', rc_name = None\<rparr>],
             messages := [\<lparr>msg_id = 50, msg_switchId = 5, msg_recipientId = 40,
                           msg_encryptedContent = c1, msg_subject = None\<rparr>,
                          \<lparr>msg_id = 51, msg_switchId = 5, msg_recipientId = 41,
                           msg_encryptedContent = c2, msg_subject = None\<rparr>]\<rparr>"

text \<open>The invariant of the delivery table along a run that started in \<open>d0\<close>.\<close>

definition sendInv :: "db \<Rightarrow> db \<Rightarrow> bool" where
  "sendInv d0 d \<longleftrightarrow> deliveryIdsFresh d \<and> (\<forall>m. sentCount d m \<le> max 1 (sentCount d0 m))"


text \<open>A transport that accepts every mail, and one that refuses every mail.\<close>

definition okTransport :: transport where
  "okTransport = (\<lambda>n mail. Inr ''provider-id'')"

definition downTransport :: transport where
  "downTransport = (\<lambda>n mail. Inl ''connect ECONNREFUSED'')"

text \<open>The same store once message 50 has been delivered.\<close>

definition sentDb :: db where
  "sentDb =
     (deliveryDb ''s:i:T:hello'' ''s:i:T:bye'')
       \<lparr>emailDeliveries := [\<lparr>ed_id = 90, ed_messageId = 50, ed_status = SENT,
                              ed_providerMessageId = Some ''provider-id'', ed_errorMessage = None,
                              ed_retryCount = 0\<rparr>]\<rparr>"

text \<open>The text "hello" as code units.\<close>

definition helloText :: jsstring where
  "helloText = [0x68, 0x65, 0x6C, 0x6C, 0x6F]"

text \<open>
  A second stand-in, which treats the tag as Node's decipher for \<open>aes-256-gcm\<close> does
  when it is created without \<open>authTagLength\<close>: the tag of a sealed text has 16 bytes, and
  a tag of 4, 8 or 12 to 16 bytes is accepted when it is the beginning of that tag.
\<close>

definition demoCryptoNode :: crypto where
  "demoCryptoNode =
     demoCrypto
       \<lparr>gcmSeal := (\<lambda>key iv plaintext. (plaintext, replicate 16 CHR ''T'')),
        gcmOpen := (\<lambda>key iv tag ciphertext.
                     if length tag \<in> {4, 8, 12, 13, 14, 15, 16}
                        \<and> tag = take (length tag) (replicate 16 CHR ''T'')
                     then Inr ciphertext
                     else Inl (Error ''Unsupported state or unable to authenticate data''))\<rparr>"

section \<open>Store lemmas\<close>

lemma find_map_upd:
  assumes "\<And>s. key (f s) = key s"
  shows "find (\<lambda>s. key s = j) (map (\<lambda>s. if key s = i then f s else s) xs)
         = (if j = i then map_option f (find (\<lambda>s. key s = j) xs) else find (\<lambda>s. key s = j) xs)"
  using assms by (induction xs) auto

lemma find_map_same:
  assumes "\<And>x. P (g x) = P x"
  shows "find P (map g xs) = map_option g (find P xs)"
  using assms by (induction xs) auto

lemma findSwitch_updateSwitch:
  assumes "\<And>s. sw_id (f s) = sw_id s"
  shows "findSwitch (updateSwitch i f d) j
         = (if j = i then map_option f (findSwitch d i) else findSwitch d j)"
  using find_map_upd[of sw_id f j i "switches d", OF assms]
  by (simp add: findSwitch_def updateSwitch_def)

lemma findSwitch_auditLogCreate [simp]: "findSwitch (auditLogCreate a d) j = findSwitch d j"
  by (simp add: findSwitch_def auditLogCreate_def)

lemma findSwitch_completeOpenRequests [simp]:
  "findSwitch (completeOpenRequests now i d) j = findSwitch d j"
  by (simp add: findSwitch_def completeOpenRequests_def)

lemma sw_id_updateData [simp]: "sw_id (updateData now cur t s) = sw_id s"
  by (cases t) simp_all

lemma status_updateData [simp]: "status (updateData now cur t s) = t"
  by (cases t) simp_all

section \<open>The state machine\<close>

lemma isValidTransition_spec: "isValidTransition a b \<longleftrightarrow> b \<in> specAllowed a"
  by (cases a) (auto simp: isValidTransition_def specAllowed_def)

lemma transition_status:
  assumes "findSwitch d j = Some sw"
  shows "\<exists>sw'. findSwitch (fst (transitionSwitchState now d i t)) j = Some sw'
            \<and> (status sw' = status sw \<or> (j = i \<and> status sw' = t \<and> t \<in> specAllowed (status sw)))"
  using assms
  by (auto simp: transitionSwitchState_def Let_def findSwitch_updateSwitch isValidTransition_spec
           split: option.splits)

lemma checkIn_executed:
  assumes "findSwitch d j = Some sw" "status sw = EXECUTED"
  shows "\<exists>sw'. findSwitch (fst (checkIn now d i)) j = Some sw' \<and> status sw' = EXECUTED"
  using assms
  by (auto simp: checkIn_def Let_def findSwitch_updateSwitch validCheckInStates_def
           split: option.splits)

lemma applyOp_executed:
  assumes "findSwitch d j = Some sw" "status sw = EXECUTED"
  shows "\<exists>sw'. findSwitch (applyOp p d) j = Some sw' \<and> status sw' = EXECUTED"
proof (cases p)
  case (OpTransition now i t)
  from transition_status[OF assms(1), of now i t] assms(2) show ?thesis
    by (auto simp: OpTransition specAllowed_def)
next
  case (OpCheckIn now i)
  with checkIn_executed[OF assms] show ?thesis by simp
qed

lemma runOps_executed:
  "findSwitch d j = Some sw \<Longrightarrow> status sw = EXECUTED \<Longrightarrow>
   \<exists>sw'. findSwitch (runOps ps d) j = Some sw' \<and> status sw' = EXECUTED"
proof (induction ps arbitrary: d sw)
  case Nil then show ?case by simp
next
  case (Cons p ps)
  from applyOp_executed[OF Cons.prems, of p] obtain sw1 where
    "findSwitch (applyOp p d) j = Some sw1" "status sw1 = EXECUTED" by blast
  from Cons.IH[OF this] show ?case by simp
qed

text \<open>
  C6. \<open>transitionSwitchState\<close> fails with "Switch not found" when the switch does not
  exist; it fails with "Invalid transition" and leaves the store as it was when the target
  is not in the allowed set of the current status in the specification's graph; when the
  target is allowed it succeeds and stores the target. The stored status of any switch
  either stays or moves along an edge of the graph. No transition out of EXECUTED
  succeeds, and a switch in EXECUTED stays in EXECUTED under every sequence of
  \<open>transitionSwitchState\<close> and \<open>checkIn\<close> calls.
\<close>

theorem transitionSwitchState_graph:
  "(findSwitch d i = None \<longrightarrow>
      transitionSwitchState now d i target
        = (d, \<lparr>success = False, previousStatus = ACTIVE, newStatus = target,
               error = Some ''Switch not found''\<rparr>))
   \<and> (\<forall>sw. findSwitch d i = Some sw \<and> target \<notin> specAllowed (status sw) \<longrightarrow>
      transitionSwitchState now d i target
        = (d, \<lparr>success = False, previousStatus = status sw, newStatus = target,
               error = Some (''Invalid transition from '' @ statusName (status sw) @ '' to ''
                             @ statusName target)\<rparr>))
   \<and> (\<forall>sw. findSwitch d i = Some sw \<and> target \<in> specAllowed (status sw) \<longrightarrow>
      success (snd (transitionSwitchState now d i target))
      \<and> map_option status (findSwitch (fst (transitionSwitchState now d i target)) i) = Some target)
   \<and> (\<forall>j sw. findSwitch d j = Some sw \<longrightarrow>
        (\<exists>sw'. findSwitch (fst (transitionSwitchState now d i target)) j = Some sw'
           \<and> (status sw' = status sw \<or> status sw' \<in> specAllowed (status sw))))
   \<and> (\<forall>sw. findSwitch d i = Some sw \<and> status sw = EXECUTED \<longrightarrow>
        \<not> success (snd (transitionSwitchState now d i target)))
   \<and> (\<forall>ops j sw. findSwitch d j = Some sw \<and> status sw = EXECUTED \<longrightarrow>
        (\<exists>sw'. findSwitch (runOps ops d) j = Some sw' \<and> status sw' = EXECUTED))"
proof (intro conjI allI impI)
  assume "findSwitch d i = None"
  then show "transitionSwitchState now d i target
        = (d, \<lparr>success = False, previousStatus = ACTIVE, newStatus = target,
               error = Some ''Switch not found''\<rparr>)"
    by (simp add: transitionSwitchState_def)
next
  fix sw assume "findSwitch d i = Some sw \<and> target \<notin> specAllowed (status sw)"
  then show "transitionSwitchState now d i target
        = (d, \<lparr>success = False, previousStatus = status sw, newStatus = target,
               error = Some (''Invalid transition from '' @ statusName (status sw) @ '' to ''
                             @ statusName target)\<rparr>)"
    by (simp add: transitionSwitchState_def isValidTransition_spec Let_def)
next
  fix sw assume a: "findSwitch d i = Some sw \<and> target \<in> specAllowed (status sw)"
  then show "success (snd (transitionSwitchState now d i target))"
    by (simp add: transitionSwitchState_def isValidTransition_spec Let_def)
  from a show "map_option status (findSwitch (fst (transitionSwitchState now d i target)) i) = Some target"
    by (simp add: transitionSwitchState_def isValidTransition_spec findSwitch_updateSwitch Let_def)
next
  fix j sw assume "findSwitch d j = Some sw"
  from transition_status[OF this, of now i target]
  show "\<exists>sw'. findSwitch (fst (transitionSwitchState now d i target)) j = Some sw'
           \<and> (status sw' = status sw \<or> status sw' \<in> specAllowed (status sw))"
    by auto
next
  fix sw assume "findSwitch d i = Some sw \<and> status sw = EXECUTED"
  then show "\<not> success (snd (transitionSwitchState now d i target))"
    by (simp add: transitionSwitchState_def isValidTransition_def Let_def)
next
  fix ops j sw assume "findSwitch d j = Some sw \<and> status sw = EXECUTED"
  then show "\<exists>sw'. findSwitch (runOps ops d) j = Some sw' \<and> status sw' = EXECUTED"
    using runOps_executed by blast
qed

lemma findSwitch_votingDb [simp]: "findSwitch (votingDb st) 5 = Some (demoSwitch st)"
  by (simp add: findSwitch_def votingDb_def emptyDb_def demoSwitch_def)

lemma findSwitch_emptyDb [simp]: "findSwitch emptyDb i = None"
  by (simp add: findSwitch_def emptyDb_def)

lemma status_demoSwitch [simp]: "status (demoSwitch st) = st"
  by (simp add: demoSwitch_def)

theorem transitionSwitchState_graph_witness:
  "transitionSwitchState 2000 emptyDb 5 OVERDUE
     = (emptyDb, \<lparr>success = False, previousStatus = ACTIVE, newStatus = OVERDUE,
                  error = Some ''Switch not found''\<rparr>)
   \<and> transitionSwitchState 2000 (votingDb EXECUTED) 5 ACTIVE
     = (votingDb EXECUTED, \<lparr>success = False, previousStatus = EXECUTED, newStatus = ACTIVE,
                  error = Some ''Invalid transition from EXECUTED to ACTIVE''\<rparr>)
   \<and> success (snd (transitionSwitchState 2000 (votingDb VERIFIED) 5 EXECUTED))
   \<and> map_option status (findSwitch (fst (transitionSwitchState 2000 (votingDb VERIFIED) 5 EXECUTED)) 5)
       = Some EXECUTED
   \<and> (\<exists>sw'. findSwitch (runOps [OpCheckIn 2000 5, OpTransition 3000 5 ACTIVE, OpTransition 4000 5 CANCELED]
                          (votingDb EXECUTED)) 5 = Some sw' \<and> status sw' = EXECUTED)"
proof -
  note g = transitionSwitchState_graph
  have "findSwitch emptyDb 5 = None" by simp
  with g[of emptyDb 5 2000 OVERDUE] have c1: "transitionSwitchState 2000 emptyDb 5 OVERDUE
     = (emptyDb, \<lparr>success = False, previousStatus = ACTIVE, newStatus = OVERDUE,
                  error = Some ''Switch not found''\<rparr>)" by blast
  have "findSwitch (votingDb EXECUTED) 5 = Some (demoSwitch EXECUTED)
        \<and> ACTIVE \<notin> specAllowed (status (demoSwitch EXECUTED))"
    by (simp add: specAllowed_def)
  with g[of "votingDb EXECUTED" 5 2000 ACTIVE]
  have "transitionSwitchState 2000 (votingDb EXECUTED) 5 ACTIVE
     = (votingDb EXECUTED, \<lparr>success = False, previousStatus = status (demoSwitch EXECUTED), newStatus = ACTIVE,
                  error = Some (''Invalid transition from '' @ statusName (status (demoSwitch EXECUTED)) @ '' to ''
                             @ statusName ACTIVE)\<rparr>)" by blast
  then have c2: "transitionSwitchState 2000 (votingDb EXECUTED) 5 ACTIVE
     = (votingDb EXECUTED, \<lparr>success = False, previousStatus = EXECUTED, newStatus = ACTIVE,
                  error = Some ''Invalid transition from EXECUTED to ACTIVE''\<rparr>)" by simp
  have "findSwitch (votingDb VERIFIED) 5 = Some (demoSwitch VERIFIED)
        \<and> EXECUTED \<in> specAllowed (status (demoSwitch VERIFIED))"
    by (simp add: specAllowed_def)
  with g[of "votingDb VERIFIED" 5 2000 EXECUTED]
  have c3: "success (snd (transitionSwitchState 2000 (votingDb VERIFIED) 5 EXECUTED))
      \<and> map_option status (findSwitch (fst (transitionSwitchState 2000 (votingDb VERIFIED) 5 EXECUTED)) 5) = Some EXECUTED"
    by blast
  have "findSwitch (votingDb EXECUTED) 5 = Some (demoSwitch EXECUTED)
        \<and> status (demoSwitch EXECUTED) = EXECUTED" by simp
  with g[of "votingDb EXECUTED" 5 2000 ACTIVE]
  have c4: "\<exists>sw'. findSwitch (runOps [OpCheckIn 2000 5, OpTransition 3000 5 ACTIVE, OpTransition 4000 5 CANCELED]
                          (votingDb EXECUTED)) 5 = Some sw' \<and> status sw' = EXECUTED"
    by blast
  from c1 c2 c3 c4 show ?thesis by blast
qed

section \<open>Owner check-in\<close>

lemma requests_checkIn:
  "verificationRequests (fst (checkIn now d i)) =
     (case findSwitch d i of
        None \<Rightarrow> verificationRequests d
      | Some sw \<Rightarrow>
          if status sw \<in> set validCheckInStates
          then map (\<lambda>r. if vr_switchId r = i \<and> vr_completedAt r = None
                         then r\<lparr>vr_completedAt := Some now, vr_result := Some denied\<rparr> else r)
                   (verificationRequests d)
          else verificationRequests d)"
  by (simp add: checkIn_def Let_def completeOpenRequests_def auditLogCreate_def updateSwitch_def
           split: option.splits)

text \<open>
  C4, as stated, fails: for a switch that does not exist \<open>checkIn\<close> fails with
  "Switch not found", which is not the error it has for a refused status.
\<close>

theorem checkIn_missing_switch_counterexample:
  "\<not> success (snd (checkIn 2000 emptyDb 5))
   \<and> \<not> isInvalidCheckInError (error (snd (checkIn 2000 emptyDb 5)))"
  by (simp add: checkIn_def isInvalidCheckInError_def)

text \<open>
  C4, amended. \<open>checkIn\<close> fails with "Switch not found" when the switch does not exist,
  and with "Cannot check in from ... state", leaving the store as it was, when the status
  is outside ACTIVE, OVERDUE, GRACE_PERIOD, PENDING_VERIFICATION, VERIFIED. Otherwise it
  succeeds: the switch becomes ACTIVE with \<open>lastCheckInAt = now\<close>,
  \<open>nextCheckInDueAt = now + checkInIntervalDays\<close> days, both other timers cleared, and
  every request of the switch that was open is completed at \<open>now\<close> with result denied,
  all other requests staying as they were.
\<close>

theorem checkIn_characterisation:
  "(findSwitch d i = None \<longrightarrow>
      checkIn now d i = (d, \<lparr>success = False, previousStatus = ACTIVE, newStatus = ACTIVE,
                             error = Some ''Switch not found''\<rparr>))
   \<and> (\<forall>sw. findSwitch d i = Some sw
          \<and> status sw \<notin> {ACTIVE, OVERDUE, GRACE_PERIOD, PENDING_VERIFICATION, VERIFIED} \<longrightarrow>
      checkIn now d i = (d, \<lparr>success = False, previousStatus = status sw, newStatus = ACTIVE,
                             error = Some (''Cannot check in from '' @ statusName (status sw)
                                           @ '' state'')\<rparr>))
   \<and> (\<forall>sw. findSwitch d i = Some sw
          \<and> status sw \<in> {ACTIVE, OVERDUE, GRACE_PERIOD, PENDING_VERIFICATION, VERIFIED} \<longrightarrow>
      snd (checkIn now d i) = \<lparr>success = True, previousStatus = status sw, newStatus = ACTIVE,
                                error = None\<rparr>
      \<and> findSwitch (fst (checkIn now d i)) i
          = Some (sw\<lparr>status := ACTIVE, lastCheckInAt := Some now,
                     nextCheckInDueAt := Some (now + checkInIntervalDays sw * msPerDay),
                     gracePeriodEndsAt := None, scheduledExecutionAt := None\<rparr>)
      \<and> length (verificationRequests (fst (checkIn now d i))) = length (verificationRequests d)
      \<and> (\<forall>k < length (verificationRequests d).
            verificationRequests (fst (checkIn now d i)) ! k
              = (let r = verificationRequests d ! k in
                 if vr_switchId r = i \<and> vr_completedAt r = None
                 then r\<lparr>vr_completedAt := Some now, vr_result := Some denied\<rparr> else r)))"
proof (intro conjI allI impI)
  assume "findSwitch d i = None"
  then show "checkIn now d i = (d, \<lparr>success = False, previousStatus = ACTIVE, newStatus = ACTIVE,
                             error = Some ''Switch not found''\<rparr>)"
    by (simp add: checkIn_def)
next
  fix sw
  assume "findSwitch d i = Some sw
          \<and> status sw \<notin> {ACTIVE, OVERDUE, GRACE_PERIOD, PENDING_VERIFICATION, VERIFIED}"
  then show "checkIn now d i = (d, \<lparr>success = False, previousStatus = status sw, newStatus = ACTIVE,
                             error = Some (''Cannot check in from '' @ statusName (status sw)
                                           @ '' state'')\<rparr>)"
    by (simp add: checkIn_def Let_def validCheckInStates_def)
next
  fix sw
  assume a: "findSwitch d i = Some sw
          \<and> status sw \<in> {ACTIVE, OVERDUE, GRACE_PERIOD, PENDING_VERIFICATION, VERIFIED}"
  then have v: "status sw \<in> set validCheckInStates" by (simp add: validCheckInStates_def)
  from a v show "snd (checkIn now d i) = \<lparr>success = True, previousStatus = status sw, newStatus = ACTIVE,
                                error = None\<rparr>"
    by (simp add: checkIn_def Let_def)
  from a v show "findSwitch (fst (checkIn now d i)) i
          = Some (sw\<lparr>status := ACTIVE, lastCheckInAt := Some now,
                     nextCheckInDueAt := Some (now + checkInIntervalDays sw * msPerDay),
                     gracePeriodEndsAt := None, scheduledExecutionAt := None\<rparr>)"
    by (simp add: checkIn_def Let_def findSwitch_updateSwitch)
  from a v show "length (verificationRequests (fst (checkIn now d i))) = length (verificationRequests d)"
    by (simp add: requests_checkIn)
  fix k assume "k < length (verificationRequests d)"
  with a v show "verificationRequests (fst (checkIn now d i)) ! k
              = (let r = verificationRequests d ! k in
                 if vr_switchId r = i \<and> vr_completedAt r = None
                 then r\<lparr>vr_completedAt := Some now, vr_result := Some denied\<rparr> else r)"
    by (simp add: requests_checkIn Let_def)
qed

theorem checkIn_characterisation_witness:
  "checkIn 2000 emptyDb 5 = (emptyDb, \<lparr>success = False, previousStatus = ACTIVE, newStatus = ACTIVE,
                                        error = Some ''Switch not found''\<rparr>)
   \<and> checkIn 2000 (votingDb PAUSED) 5
       = (votingDb PAUSED, \<lparr>success = False, previousStatus = PAUSED, newStatus = ACTIVE,
                            error = Some ''Cannot check in from PAUSED state''\<rparr>)
   \<and> snd (checkIn 2000 (votingDb PENDING_VERIFICATION) 5)
       = \<lparr>success = True, previousStatus = PENDING_VERIFICATION, newStatus = ACTIVE, error = None\<rparr>
   \<and> findSwitch (fst (checkIn 2000 (votingDb PENDING_VERIFICATION) 5)) 5
       = Some ((demoSwitch ACTIVE)\<lparr>lastCheckInAt := Some 2000, nextCheckInDueAt := Some 604802000,
                                   gracePeriodEndsAt := None, scheduledExecutionAt := None\<rparr>)
   \<and> verificationRequests (fst (checkIn 2000 (votingDb PENDING_VERIFICATION) 5)) ! 0
       = demoRequest\<lparr>vr_completedAt := Some 2000, vr_result := Some denied\<rparr>"
proof -
  note g = checkIn_characterisation
  have "findSwitch emptyDb 5 = None" by simp
  with g[of emptyDb 5 2000]
  have c1: "checkIn 2000 emptyDb 5 = (emptyDb, \<lparr>success = False, previousStatus = ACTIVE, newStatus = ACTIVE,
                                        error = Some ''Switch not found''\<rparr>)" by blast
  have "findSwitch (votingDb PAUSED) 5 = Some (demoSwitch PAUSED)
        \<and> status (demoSwitch PAUSED) \<notin> {ACTIVE, OVERDUE, GRACE_PERIOD, PENDING_VERIFICATION, VERIFIED}"
    by simp
  with g[of "votingDb PAUSED" 5 2000]
  have "checkIn 2000 (votingDb PAUSED) 5
       = (votingDb PAUSED, \<lparr>success = False, previousStatus = status (demoSwitch PAUSED), newStatus = ACTIVE,
                            error = Some (''Cannot check in from '' @ statusName (status (demoSwitch PAUSED))
                                           @ '' state'')\<rparr>)" by blast
  then have c2: "checkIn 2000 (votingDb PAUSED) 5
       = (votingDb PAUSED, \<lparr>success = False, previousStatus = PAUSED, newStatus = ACTIVE,
                            error = Some ''Cannot check in from PAUSED state''\<rparr>)" by simp
  let ?d = "votingDb PENDING_VERIFICATION" and ?sw = "demoSwitch PENDING_VERIFICATION"
  have h: "findSwitch ?d 5 = Some ?sw
        \<and> status ?sw \<in> {ACTIVE, OVERDUE, GRACE_PERIOD, PENDING_VERIFICATION, VERIFIED}"
    by simp
  have k: "0 < length (verificationRequests ?d)" by (simp add: votingDb_def emptyDb_def)
  from g[of ?d 5 2000] h
  have c3: "snd (checkIn 2000 ?d 5) = \<lparr>success = True, previousStatus = status ?sw, newStatus = ACTIVE,
                                error = None\<rparr>
      \<and> findSwitch (fst (checkIn 2000 ?d 5)) 5
          = Some (?sw\<lparr>status := ACTIVE, lastCheckInAt := Some 2000,
                     nextCheckInDueAt := Some (2000 + checkInIntervalDays ?sw * msPerDay),
                     gracePeriodEndsAt := None, scheduledExecutionAt := None\<rparr>)
      \<and> (\<forall>k < length (verificationRequests ?d).
            verificationRequests (fst (checkIn 2000 ?d 5)) ! k
              = (let r = verificationRequests ?d ! k in
                 if vr_switchId r = 5 \<and> vr_completedAt r = None
                 then r\<lparr>vr_completedAt := Some 2000, vr_result := Some denied\<rparr> else r))"
    by blast
  with k have "verificationRequests (fst (checkIn 2000 ?d 5)) ! 0
              = (let r = verificationRequests ?d ! 0 in
                 if vr_switchId r = 5 \<and> vr_completedAt r = None
                 then r\<lparr>vr_completedAt := Some 2000, vr_result := Some denied\<rparr> else r)" by blast
  then have c4: "verificationRequests (fst (checkIn 2000 ?d 5)) ! 0
       = demoRequest\<lparr>vr_completedAt := Some 2000, vr_result := Some denied\<rparr>"
    by (simp add: votingDb_def emptyDb_def demoRequest_def)
  from c3 have c5: "snd (checkIn 2000 ?d 5)
       = \<lparr>success = True, previousStatus = PENDING_VERIFICATION, newStatus = ACTIVE, error = None\<rparr>"
    by simp
  from c3 have c6: "findSwitch (fst (checkIn 2000 ?d 5)) 5
       = Some ((demoSwitch ACTIVE)\<lparr>lastCheckInAt := Some 2000, nextCheckInDueAt := Some 604802000,
                                   gracePeriodEndsAt := None, scheduledExecutionAt := None\<rparr>)"
    by (simp add: demoSwitch_def msPerDay_def)
  from c1 c2 c4 c5 c6 show ?thesis by blast
qed

text \<open>
  C10. \<open>verifyAndUseCheckInToken\<close> returns the token's switch id for every existing token
  that is not expired, whether or not \<open>usedAt\<close> is set; it returns null exactly when the
  token does not exist or \<open>expiresAt\<close> lies before the current time; and after a first use
  a later call still returns the switch id as long as the token has not expired.
\<close>

theorem verifyAndUseCheckInToken_reusable:
  "(\<forall>k. findCheckInToken d tok = Some k \<and> \<not> ct_expiresAt k < now \<longrightarrow>
       snd (verifyAndUseCheckInToken now d tok) = Some (ct_switchId k))
   \<and> (snd (verifyAndUseCheckInToken now d tok) = None \<longleftrightarrow>
        findCheckInToken d tok = None
        \<or> (\<exists>k. findCheckInToken d tok = Some k \<and> ct_expiresAt k < now))
   \<and> (\<forall>k later. findCheckInToken d tok = Some k \<and> \<not> ct_expiresAt k < later \<longrightarrow>
        snd (verifyAndUseCheckInToken later (fst (verifyAndUseCheckInToken now d tok)) tok)
          = Some (ct_switchId k))"
proof (intro conjI allI impI)
  fix k assume "findCheckInToken d tok = Some k \<and> \<not> ct_expiresAt k < now"
  then show "snd (verifyAndUseCheckInToken now d tok) = Some (ct_switchId k)"
    by (simp add: verifyAndUseCheckInToken_def)
next
  show "snd (verifyAndUseCheckInToken now d tok) = None \<longleftrightarrow>
        findCheckInToken d tok = None
        \<or> (\<exists>k. findCheckInToken d tok = Some k \<and> ct_expiresAt k < now)"
    by (auto simp: verifyAndUseCheckInToken_def split: option.splits)
next
  fix k later
  assume a: "findCheckInToken d tok = Some k \<and> \<not> ct_expiresAt k < later"
  let ?g = "\<lambda>x. if ct_id x = ct_id k then x\<lparr>ct_usedAt := Some now\<rparr> else x"
  have "find (\<lambda>x. ct_token x = tok) (map ?g (checkInTokens d))
          = map_option ?g (find (\<lambda>x. ct_token x = tok) (checkInTokens d))"
    by (rule find_map_same) simp
  with a have f: "findCheckInToken (d\<lparr>checkInTokens := map ?g (checkInTokens d)\<rparr>) tok
                  = Some (k\<lparr>ct_usedAt := Some now\<rparr>)"
    by (simp add: findCheckInToken_def)
  show "snd (verifyAndUseCheckInToken later (fst (verifyAndUseCheckInToken now d tok)) tok)
          = Some (ct_switchId k)"
  proof (cases "ct_usedAt k = None \<and> \<not> ct_expiresAt k < now")
    case True
    with a have "fst (verifyAndUseCheckInToken now d tok) = d\<lparr>checkInTokens := map ?g (checkInTokens d)\<rparr>"
      by (simp add: verifyAndUseCheckInToken_def)
    with f a show ?thesis by (simp add: verifyAndUseCheckInToken_def)
  next
    case False
    with a have "fst (verifyAndUseCheckInToken now d tok) = d"
      by (auto simp: verifyAndUseCheckInToken_def)
    with a show ?thesis by (simp add: verifyAndUseCheckInToken_def)
  qed
qed

theorem verifyAndUseCheckInToken_reusable_witness:
  "snd (verifyAndUseCheckInToken 2000 (emptyDb\<lparr>checkInTokens := [demoCheckInToken (Some 1500)]\<rparr>) ''chk'')
     = Some 5
   \<and> snd (verifyAndUseCheckInToken 3000
            (fst (verifyAndUseCheckInToken 2000 (emptyDb\<lparr>checkInTokens := [demoCheckInToken None]\<rparr>) ''chk''))
            ''chk'') = Some 5"
proof -
  let ?u = "emptyDb\<lparr>checkInTokens := [demoCheckInToken (Some 1500)]\<rparr>"
  let ?n = "emptyDb\<lparr>checkInTokens := [demoCheckInToken None]\<rparr>"
  have "findCheckInToken ?u ''chk'' = Some (demoCheckInToken (Some 1500))
        \<and> \<not> ct_expiresAt (demoCheckInToken (Some 1500)) < 2000"
    by (simp add: findCheckInToken_def demoCheckInToken_def)
  with verifyAndUseCheckInToken_reusable[of ?u "''chk''" 2000]
  have "snd (verifyAndUseCheckInToken 2000 ?u ''chk'') = Some (ct_switchId (demoCheckInToken (Some 1500)))"
    by blast
  then have c1: "snd (verifyAndUseCheckInToken 2000 ?u ''chk'') = Some 5"
    by (simp add: demoCheckInToken_def)
  have "findCheckInToken ?n ''chk'' = Some (demoCheckInToken None)
        \<and> \<not> ct_expiresAt (demoCheckInToken None) < 3000"
    by (simp add: findCheckInToken_def demoCheckInToken_def)
  with verifyAndUseCheckInToken_reusable[of ?n "''chk''" 2000]
  have "snd (verifyAndUseCheckInToken 3000 (fst (verifyAndUseCheckInToken 2000 ?n ''chk'')) ''chk'')
          = Some (ct_switchId (demoCheckInToken None))"
    by blast
  then have c2: "snd (verifyAndUseCheckInToken 3000 (fst (verifyAndUseCheckInToken 2000 ?n ''chk'')) ''chk'')
          = Some 5"
    by (simp add: demoCheckInToken_def)
  from c1 c2 show ?thesis by blast
qed

section \<open>Verification votes\<close>

lemma find_Some_sat: "find P xs = Some x \<Longrightarrow> P x"
  by (induction xs) (auto split: if_splits)

lemma findRequest_updateRequest:
  assumes "\<And>r. vr_id (f r) = vr_id r"
  shows "findRequest (updateRequest i f d) j
         = (if j = i then map_option f (findRequest d i) else findRequest d j)"
  using find_map_upd[of vr_id f j i "verificationRequests d", OF assms]
  by (simp add: findRequest_def updateRequest_def)

lemma findSwitch_updateRequest [simp]: "findSwitch (updateRequest i f d) j = findSwitch d j"
  by (simp add: findSwitch_def updateRequest_def)

lemma findRequest_updateSwitch [simp]: "findRequest (updateSwitch i f d) j = findRequest d j"
  by (simp add: findRequest_def updateSwitch_def)

lemma findRequest_auditLogCreate [simp]: "findRequest (auditLogCreate a d) j = findRequest d j"
  by (simp add: findRequest_def auditLogCreate_def)

lemma votes_updateRequest [simp]: "votes (updateRequest i f d) = votes d"
  by (simp add: updateRequest_def)

lemma votes_updateSwitch [simp]: "votes (updateSwitch i f d) = votes d"
  by (simp add: updateSwitch_def)

lemma voteChecks_ok:
  assumes "findToken d tok = Some t"
    and "findRequest d (vt_verificationRequestId t) = Some r"
    and "findSwitch d (vr_switchId r) = Some sw"
    and "\<not> vt_expiresAt t < now" and "vt_usedAt t = None" and "vr_completedAt r = None"
    and "findVote d (vr_id r) (vt_verifierId t) = None"
  shows "voteChecks now d tok = Inr (t, r, sw)"
  using assms by (simp add: voteChecks_def)

lemma voteHead_row: "fst (voteHead now t r v d) = newVote now d t r v"
  by (simp add: voteHead_def voteCreate_def Let_def newVote_def markTokenUsed_def)

lemma voteHead_votes: "votes (snd (voteHead now t r v d)) = votes d @ [newVote now d t r v]"
  by (simp add: voteHead_def voteCreate_def Let_def newVote_def auditLogCreate_def markTokenUsed_def)

lemma voteHead_findRequest [simp]: "findRequest (snd (voteHead now t r v d)) j = findRequest d j"
  by (simp add: voteHead_def voteCreate_def Let_def auditLogCreate_def markTokenUsed_def findRequest_def)

lemma voteHead_findSwitch [simp]: "findSwitch (snd (voteHead now t r v d)) j = findSwitch d j"
  by (simp add: voteHead_def voteCreate_def Let_def auditLogCreate_def markTokenUsed_def findSwitch_def)

lemma voteHead_countConfirm:
  "countConfirm (snd (voteHead now t r v d)) (vr_id r)
     = (if v = CONFIRM then Suc (countConfirm d (vr_id r)) else countConfirm d (vr_id r))"
  by (simp add: countConfirm_def voteHead_votes newVote_def)

text \<open>The outcome of an accepted DENY vote in the two variants.\<close>

lemma deny_outcome:
  assumes "findToken d tok = Some t"
    and "findRequest d (vt_verificationRequestId t) = Some r"
    and "findSwitch d (vr_switchId r) = Some sw"
    and "\<not> vt_expiresAt t < now" and "vt_usedAt t = None" and "vr_completedAt r = None"
    and "findVote d (vr_id r) (vt_verifierId t) = None"
  defines "d1 \<equiv> snd (voteHead now t r DENY d)"
  defines "d2 \<equiv> updateRequest (vr_id r) (\<lambda>r. r\<lparr>vr_completedAt := Some now, vr_result := Some denied\<rparr>) d1"
  shows "submitVerificationVote now d tok DENY
           = Inr (updateSwitch (vr_switchId r)
                    (\<lambda>s. s\<lparr>status := PAUSED, gracePeriodEndsAt := None, scheduledExecutionAt := None\<rparr>) d2,
                  newVote now d t r DENY, result_denied)"
    and "submitVerificationVote_legacy now d tok DENY
           = Inr (updateSwitch (vr_switchId r)
                    (\<lambda>s. s\<lparr>status := ACTIVE, lastCheckInAt := Some now,
                            nextCheckInDueAt := Some (now + checkInIntervalDays sw * msPerDay),
                            gracePeriodEndsAt := None, scheduledExecutionAt := None\<rparr>) d2,
                  newVote now d t r DENY, result_denied)"
proof -
  have id: "vr_id r = vt_verificationRequestId t"
    using assms(2) find_Some_sat[of "\<lambda>x. vr_id x = vt_verificationRequestId t" "verificationRequests d" r]
    by (simp add: findRequest_def)
  have c: "voteChecks now d tok = Inr (t, r, sw)" using assms(1-7) by (rule voteChecks_ok)
  have h: "voteHead now t r DENY d = (newVote now d t r DENY, d1)"
    by (simp add: d1_def voteHead_row[symmetric])
  have r1: "txRequestUpdate (vr_id r) f d1 = Inr (updateRequest (vr_id r) f d1)" for f
    using assms(2) id by (simp add: txRequestUpdate_def d1_def)
  have s1: "txSwitchUpdate (vr_switchId r) f d2 = Inr (updateSwitch (vr_switchId r) f d2)" for f
    using assms(3) by (simp add: txSwitchUpdate_def d2_def d1_def)
  show "submitVerificationVote now d tok DENY
           = Inr (updateSwitch (vr_switchId r)
                    (\<lambda>s. s\<lparr>status := PAUSED, gracePeriodEndsAt := None, scheduledExecutionAt := None\<rparr>) d2,
                  newVote now d t r DENY, result_denied)"
    by (simp add: submitVerificationVote_def c h r1 s1 d2_def[symmetric])
  show "submitVerificationVote_legacy now d tok DENY
           = Inr (updateSwitch (vr_switchId r)
                    (\<lambda>s. s\<lparr>status := ACTIVE, lastCheckInAt := Some now,
                            nextCheckInDueAt := Some (now + checkInIntervalDays sw * msPerDay),
                            gracePeriodEndsAt := None, scheduledExecutionAt := None\<rparr>) d2,
                  newVote now d t r DENY, result_denied)"
    by (simp add: submitVerificationVote_legacy_def c h r1 s1 d2_def[symmetric])
qed

text \<open>
  C1, amended. When a DENY vote is accepted on an open request (the token exists, its link
  has not expired, it has not been used, the verifier has not voted), whatever votes the
  request already has, the request is completed at \<open>now\<close> with result denied and the
  result is denied. In the variant of \<open>submitVerificationVote\<close> that belongs to the OTP
  flow, the one the specification adopts, the switch is set to PAUSED with its grace and
  execution timers cleared, and is not reset to ACTIVE. In the older variant, the
  alternative policy, the switch is reset to ACTIVE with fresh check-in timers.
\<close>

theorem deny_vote_outcome:
  assumes "findToken d tok = Some t"
    and "findRequest d (vt_verificationRequestId t) = Some r"
    and "findSwitch d (vr_switchId r) = Some sw"
    and "\<not> vt_expiresAt t < now" and "vt_usedAt t = None" and "vr_completedAt r = None"
    and "findVote d (vr_id r) (vt_verifierId t) = None"
  shows "(\<exists>d' row. submitVerificationVote now d tok DENY = Inr (d', row, result_denied)
            \<and> findRequest d' (vr_id r)
                = Some (r\<lparr>vr_completedAt := Some now, vr_result := Some denied\<rparr>)
            \<and> findSwitch d' (vr_switchId r)
                = Some (sw\<lparr>status := PAUSED, gracePeriodEndsAt := None,
                           scheduledExecutionAt := None\<rparr>))
       \<and> (\<exists>d' row. submitVerificationVote_legacy now d tok DENY = Inr (d', row, result_denied)
            \<and> findRequest d' (vr_id r)
                = Some (r\<lparr>vr_completedAt := Some now, vr_result := Some denied\<rparr>)
            \<and> findSwitch d' (vr_switchId r)
                = Some (sw\<lparr>status := ACTIVE, lastCheckInAt := Some now,
                           nextCheckInDueAt := Some (now + checkInIntervalDays sw * msPerDay),
                           gracePeriodEndsAt := None, scheduledExecutionAt := None\<rparr>))"
proof -
  have id: "vr_id r = vt_verificationRequestId t"
    using assms(2) find_Some_sat[of "\<lambda>x. vr_id x = vt_verificationRequestId t" "verificationRequests d" r]
    by (simp add: findRequest_def)
  note o = deny_outcome[OF assms]
  show ?thesis
    using assms(2,3) id
    by (simp add: o findSwitch_updateSwitch findRequest_updateRequest)
qed

lemmas voting_defs = votedDb_def votingDb_def emptyDb_def demoSwitch_def demoRequest_def
  demoToken_def demoVote_def

lemma votedDb_token:
  "findToken (votedDb vs) ''tok-a'' = Some (demoToken 21 ''tok-a'')"
  "findToken (votedDb vs) ''tok-b'' = Some (demoToken 22 ''tok-b'')"
  by (simp_all add: findToken_def voting_defs)

lemma votedDb_request: "findRequest (votedDb vs) 10 = Some demoRequest"
  by (simp add: findRequest_def voting_defs)

lemma votedDb_switch: "findSwitch (votedDb vs) 5 = Some (demoSwitch PENDING_VERIFICATION)"
  by (simp add: findSwitch_def voting_defs)

lemma votedDb_hyps:
  "findRequest (votedDb vs) (vt_verificationRequestId (demoToken v tk)) = Some demoRequest"
  "findSwitch (votedDb vs) (vr_switchId demoRequest) = Some (demoSwitch PENDING_VERIFICATION)"
  "\<not> vt_expiresAt (demoToken v tk) < 2000"
  "vt_usedAt (demoToken v tk) = None"
  "vr_completedAt demoRequest = None"
  by (simp_all add: findRequest_def findSwitch_def voting_defs)

lemma votedDb_novote:
  "findVote (votedDb [demoVote 21 CONFIRM]) (vr_id demoRequest) (vt_verifierId (demoToken 22 tk)) = None"
  "findVote (votedDb []) (vr_id demoRequest) (vt_verifierId (demoToken v tk)) = None"
  by (simp_all add: findVote_def voting_defs)

text \<open>
  C1, as stated for every DENY vote, fails on the older variant of
  \<open>submitVerificationVote\<close>: a DENY vote on an open request that already has a CONFIRM
  vote is accepted, and the switch is then ACTIVE, not PAUSED.
\<close>

theorem legacy_deny_resets_counterexample:
  "(case submitVerificationVote_legacy 2000 (votedDb [demoVote 21 CONFIRM]) ''tok-b'' DENY of
      Inl e \<Rightarrow> None
    | Inr (d', row, res) \<Rightarrow> map_option status (findSwitch d' 5)) = Some ACTIVE"
proof -
  note o = deny_outcome(2)[OF votedDb_token(2) votedDb_hyps votedDb_novote(1)]
  show ?thesis
    by (simp add: o findSwitch_updateSwitch votedDb_switch) (simp add: demoRequest_def votedDb_switch)
qed

theorem deny_vote_outcome_witness:
  "(\<exists>d' row. submitVerificationVote 2000 (votedDb [demoVote 21 CONFIRM]) ''tok-b'' DENY
               = Inr (d', row, result_denied)
        \<and> findRequest d' 10 = Some (demoRequest\<lparr>vr_completedAt := Some 2000, vr_result := Some denied\<rparr>)
        \<and> map_option status (findSwitch d' 5) = Some PAUSED)
   \<and> (\<exists>d' row. submitVerificationVote_legacy 2000 (votedDb [demoVote 21 CONFIRM]) ''tok-b'' DENY
               = Inr (d', row, result_denied)
        \<and> findRequest d' 10 = Some (demoRequest\<lparr>vr_completedAt := Some 2000, vr_result := Some denied\<rparr>)
        \<and> map_option status (findSwitch d' 5) = Some ACTIVE)"
proof -
  have i: "vr_id demoRequest = 10" "vr_switchId demoRequest = 5" by (simp_all add: demoRequest_def)
  from deny_vote_outcome[OF votedDb_token(2) votedDb_hyps votedDb_novote(1)]
  show ?thesis unfolding i by fastforce
qed

lemma legacy_confirm_same:
  "submitVerificationVote_legacy now d tok CONFIRM = submitVerificationVote now d tok CONFIRM"
  by (simp add: submitVerificationVote_legacy_def submitVerificationVote_def split: sum.split prod.split)

lemma confirm_outcome:
  assumes "findToken d tok = Some t"
    and "findRequest d (vt_verificationRequestId t) = Some r"
    and "findSwitch d (vr_switchId r) = Some sw"
    and "\<not> vt_expiresAt t < now" and "vt_usedAt t = None" and "vr_completedAt r = None"
    and "findVote d (vr_id r) (vt_verifierId t) = None"
  defines "d1 \<equiv> snd (voteHead now t r CONFIRM d)"
  shows "submitVerificationVote now d tok CONFIRM
           = (if int (Suc (countConfirm d (vr_id r))) \<ge> vr_requiredConfirmations r
              then Inr (updateSwitch (vr_switchId r)
                          (\<lambda>s. s\<lparr>status := VERIFIED,
                                  scheduledExecutionAt := Some (now + finalDelayHours sw * msPerHour)\<rparr>)
                          (updateRequest (vr_id r)
                             (\<lambda>r. r\<lparr>vr_completedAt := Some now, vr_result := Some confirmed\<rparr>) d1),
                        newVote now d t r CONFIRM, result_confirmed)
              else Inr (d1, newVote now d t r CONFIRM, result_pending))"
proof -
  have id: "vr_id r = vt_verificationRequestId t"
    using assms(2) find_Some_sat[of "\<lambda>x. vr_id x = vt_verificationRequestId t" "verificationRequests d" r]
    by (simp add: findRequest_def)
  have c: "voteChecks now d tok = Inr (t, r, sw)" using assms(1-7) by (rule voteChecks_ok)
  have h: "voteHead now t r CONFIRM d = (newVote now d t r CONFIRM, d1)"
    by (simp add: d1_def voteHead_row[symmetric])
  have n: "countConfirm d1 (vr_id r) = Suc (countConfirm d (vr_id r))"
    by (simp add: d1_def voteHead_countConfirm)
  have r1: "txRequestUpdate (vr_id r) f d1 = Inr (updateRequest (vr_id r) f d1)" for f
    using assms(2) id by (simp add: txRequestUpdate_def d1_def)
  have s1: "txSwitchUpdate (vr_switchId r) f (updateRequest (vr_id r) g d1)
              = Inr (updateSwitch (vr_switchId r) f (updateRequest (vr_id r) g d1))" for f g
    using assms(3) by (simp add: txSwitchUpdate_def d1_def)
  show ?thesis
    by (simp add: submitVerificationVote_def c h confirmTail_def Let_def n r1 s1)
qed

text \<open>
  C5. When a CONFIRM vote is accepted, the CONFIRM votes of the request are counted with
  the new vote included. If the count reaches the request's own \<open>requiredConfirmations\<close>,
  the request is completed at \<open>now\<close> with result confirmed and the switch becomes VERIFIED
  with \<open>scheduledExecutionAt = now + finalDelayHours\<close> hours, and the result is
  confirmed; otherwise the request and the switch stay as they were and the result is
  pending. Both variants of the function agree on a CONFIRM vote.
\<close>

theorem confirm_vote_quorum:
  assumes "findToken d tok = Some t"
    and "findRequest d (vt_verificationRequestId t) = Some r"
    and "findSwitch d (vr_switchId r) = Some sw"
    and "\<not> vt_expiresAt t < now" and "vt_usedAt t = None" and "vr_completedAt r = None"
    and "findVote d (vr_id r) (vt_verifierId t) = None"
  shows "submitVerificationVote_legacy now d tok CONFIRM = submitVerificationVote now d tok CONFIRM
       \<and> (\<exists>d' row res. submitVerificationVote now d tok CONFIRM = Inr (d', row, res)
            \<and> countConfirm d' (vr_id r) = Suc (countConfirm d (vr_id r))
            \<and> (if int (countConfirm d' (vr_id r)) \<ge> vr_requiredConfirmations r
               then res = result_confirmed
                  \<and> findRequest d' (vr_id r)
                      = Some (r\<lparr>vr_completedAt := Some now, vr_result := Some confirmed\<rparr>)
                  \<and> findSwitch d' (vr_switchId r)
                      = Some (sw\<lparr>status := VERIFIED,
                                 scheduledExecutionAt := Some (now + finalDelayHours sw * msPerHour)\<rparr>)
               else res = result_pending
                  \<and> findRequest d' (vr_id r) = Some r
                  \<and> findSwitch d' (vr_switchId r) = Some sw))"
proof -
  have id: "vr_id r = vt_verificationRequestId t"
    using assms(2) find_Some_sat[of "\<lambda>x. vr_id x = vt_verificationRequestId t" "verificationRequests d" r]
    by (simp add: findRequest_def)
  from assms(2) id have fr: "findRequest d (vr_id r) = Some r" by simp
  note o = confirm_outcome[OF assms]
  have n: "countConfirm (snd (voteHead now t r CONFIRM d)) (vr_id r) = Suc (countConfirm d (vr_id r))"
    by (simp add: voteHead_countConfirm)
  have n2: "countConfirm (updateSwitch i f (updateRequest j g x)) k = countConfirm x k" for i f j g x k
    by (simp add: countConfirm_def)
  show ?thesis
    using fr assms(3)
    by (simp add: legacy_confirm_same o n n2 findSwitch_updateSwitch findRequest_updateRequest)
qed

theorem confirm_vote_quorum_witness:
  "(\<exists>d' row. submitVerificationVote 2000 (votedDb []) ''tok-a'' CONFIRM = Inr (d', row, result_pending)
       \<and> countConfirm d' 10 = 1
       \<and> findRequest d' 10 = Some demoRequest
       \<and> findSwitch d' 5 = Some (demoSwitch PENDING_VERIFICATION))
   \<and> (\<exists>d' row. submitVerificationVote 2000 (votedDb [demoVote 21 CONFIRM]) ''tok-b'' CONFIRM
                  = Inr (d', row, result_confirmed)
       \<and> countConfirm d' 10 = 2
       \<and> findRequest d' 10 = Some (demoRequest\<lparr>vr_completedAt := Some 2000, vr_result := Some confirmed\<rparr>)
       \<and> findSwitch d' 5 = Some ((demoSwitch VERIFIED)\<lparr>scheduledExecutionAt := Some 86402000\<rparr>))"
proof -
  have i: "vr_id demoRequest = 10" "vr_switchId demoRequest = 5" "vr_requiredConfirmations demoRequest = 2"
    by (simp_all add: demoRequest_def)
  have c0: "countConfirm (votedDb []) 10 = 0" by (simp add: countConfirm_def voting_defs)
  have c1: "countConfirm (votedDb [demoVote 21 CONFIRM]) 10 = 1" by (simp add: countConfirm_def voting_defs)
  have s: "(demoSwitch PENDING_VERIFICATION)\<lparr>status := VERIFIED,
              scheduledExecutionAt := Some (2000 + finalDelayHours (demoSwitch PENDING_VERIFICATION) * msPerHour)\<rparr>
           = (demoSwitch VERIFIED)\<lparr>scheduledExecutionAt := Some 86402000\<rparr>"
    by (simp add: demoSwitch_def msPerHour_def)
  from confirm_vote_quorum[OF votedDb_token(1) votedDb_hyps votedDb_novote(2)]
  have a: "\<exists>d' row. submitVerificationVote 2000 (votedDb []) ''tok-a'' CONFIRM = Inr (d', row, result_pending)
       \<and> countConfirm d' 10 = 1
       \<and> findRequest d' 10 = Some demoRequest
       \<and> findSwitch d' 5 = Some (demoSwitch PENDING_VERIFICATION)"
    unfolding i c0 by (auto split: if_splits)
  from confirm_vote_quorum[OF votedDb_token(2) votedDb_hyps votedDb_novote(1)]
  have b: "\<exists>d' row. submitVerificationVote 2000 (votedDb [demoVote 21 CONFIRM]) ''tok-b'' CONFIRM
                  = Inr (d', row, result_confirmed)
       \<and> countConfirm d' 10 = 2
       \<and> findRequest d' 10 = Some (demoRequest\<lparr>vr_completedAt := Some 2000, vr_result := Some confirmed\<rparr>)
       \<and> findSwitch d' 5 = Some ((demoSwitch VERIFIED)\<lparr>scheduledExecutionAt := Some 86402000\<rparr>)"
    unfolding i c1 s by (auto split: if_splits)
  from a b show ?thesis by blast
qed

text \<open>
  C9. A request to the verify endpoint whose body has no \<open>otp\<close> field (or an empty one)
  goes to \<open>submitVerificationVote\<close>. When the token exists, its link has not expired, it
  has not been used, the request is open and the verifier has not voted, the vote row is
  inserted and the response is a success, whatever OTP hash and OTP expiry the token
  stores: a DENY completes the request as denied, and a CONFIRM that reaches the quorum
  completes it as confirmed.
\<close>

theorem POST_without_otp_records_vote:
  assumes "findToken d tok = Some t"
    and "findRequest d (vt_verificationRequestId t) = Some r"
    and "findSwitch d (vr_switchId r) = Some sw"
    and "\<not> vt_expiresAt t < now" and "vt_usedAt t = None" and "vr_completedAt r = None"
    and "findVote d (vr_id r) (vt_verifierId t) = None"
    and "\<not> truthy otp" and "parseVote (Some s) = Some v"
  shows "\<exists>d' res. POST hashOtp now d \<lparr>body_token = Some tok, body_otp = otp, body_vote = Some s\<rparr>
                    = (d', Ok200 (Some (newVote now d t r v)) res)
          \<and> submitVerificationVote now d tok v = Inr (d', newVote now d t r v, res)
          \<and> votes d' = votes d @ [newVote now d t r v]
          \<and> (v = DENY \<longrightarrow> res = result_denied
                \<and> map_option vr_result (findRequest d' (vr_id r)) = Some (Some denied))
          \<and> (v = CONFIRM \<and> vr_requiredConfirmations r \<le> int (Suc (countConfirm d (vr_id r))) \<longrightarrow>
                res = result_confirmed
                \<and> map_option vr_result (findRequest d' (vr_id r)) = Some (Some confirmed))"
proof -
  have id: "vr_id r = vt_verificationRequestId t"
    using assms(2) find_Some_sat[of "\<lambda>x. vr_id x = vt_verificationRequestId t" "verificationRequests d" r]
    by (simp add: findRequest_def)
  from assms(2) id have fr: "findRequest d (vr_id r) = Some r" by simp
  have p: "POST hashOtp now d \<lparr>body_token = Some tok, body_otp = otp, body_vote = Some s\<rparr>
             = (case submitVerificationVote now d tok v of
                  Inl (Error m) \<Rightarrow> (d, Bad400 m)
                | Inr (d', row, res) \<Rightarrow> (d', Ok200 (Some row) res))"
    using assms(8,9) by (simp add: POST_def)
  show ?thesis
  proof (cases v)
    case DENY
    note o = deny_outcome(1)[OF assms(1-7)]
    show ?thesis using fr
      by (simp add: p DENY o findRequest_updateRequest voteHead_votes)
  next
    case CONFIRM
    note o = confirm_outcome[OF assms(1-7)]
    show ?thesis using fr
      by (simp add: p CONFIRM o findRequest_updateRequest voteHead_votes)
  qed
qed

theorem POST_without_otp_records_vote_witness:
  "(\<exists>d'. POST (\<lambda>x. x) 2000 (votedDb [demoVote 21 CONFIRM])
            \<lparr>body_token = Some ''tok-b'', body_otp = None, body_vote = Some ''CONFIRM''\<rparr>
          = (d', Ok200 (Some \<lparr>vv_id = 100, vv_verificationRequestId = 10, vv_verifierId = 22,
                              vv_vote = CONFIRM, vv_votedAt = 2000\<rparr>) result_confirmed)
        \<and> map_option vr_result (findRequest d' 10) = Some (Some confirmed))
   \<and> (\<exists>d'. POST (\<lambda>x. x) 2000 (votedDb [])
            \<lparr>body_token = Some ''tok-a'', body_otp = Some [], body_vote = Some ''DENY''\<rparr>
          = (d', Ok200 (Some \<lparr>vv_id = 100, vv_verificationRequestId = 10, vv_verifierId = 21,
                              vv_vote = DENY, vv_votedAt = 2000\<rparr>) result_denied)
        \<and> map_option vr_result (findRequest d' 10) = Some (Some denied))
   \<and> snd (POST (\<lambda>x. x) 2000 (votedDb [])
            \<lparr>body_token = Some ''tok-a'', body_otp = Some ''000000'', body_vote = Some ''DENY''\<rparr>)
       = Bad400 ''Invalid verification code''"
proof -
  have i: "vr_id demoRequest = 10" "vr_requiredConfirmations demoRequest = 2"
    by (simp_all add: demoRequest_def)
  have c1: "countConfirm (votedDb [demoVote 21 CONFIRM]) 10 = 1" by (simp add: countConfirm_def voting_defs)
  have t: "\<not> truthy None" "\<not> truthy (Some [])" by (simp_all add: truthy_def)
  have pv: "parseVote (Some ''CONFIRM'') = Some CONFIRM" "parseVote (Some ''DENY'') = Some DENY"
    by (simp_all add: parseVote_def)
  have n1: "newVote 2000 (votedDb [demoVote 21 CONFIRM]) (demoToken 22 ''tok-b'') demoRequest CONFIRM
            = \<lparr>vv_id = 100, vv_verificationRequestId = 10, vv_verifierId = 22,
                              vv_vote = CONFIRM, vv_votedAt = 2000\<rparr>"
    by (simp add: newVote_def voting_defs)
  have n2: "newVote 2000 (votedDb []) (demoToken 21 ''tok-a'') demoRequest DENY
            = \<lparr>vv_id = 100, vv_verificationRequestId = 10, vv_verifierId = 21,
                              vv_vote = DENY, vv_votedAt = 2000\<rparr>"
    by (simp add: newVote_def voting_defs)
  from POST_without_otp_records_vote[OF votedDb_token(2) votedDb_hyps votedDb_novote(1) t(1) pv(1),
         of "\<lambda>x. x"]
  have a: "\<exists>d'. POST (\<lambda>x. x) 2000 (votedDb [demoVote 21 CONFIRM])
            \<lparr>body_token = Some ''tok-b'', body_otp = None, body_vote = Some ''CONFIRM''\<rparr>
          = (d', Ok200 (Some \<lparr>vv_id = 100, vv_verificationRequestId = 10, vv_verifierId = 22,
                              vv_vote = CONFIRM, vv_votedAt = 2000\<rparr>) result_confirmed)
        \<and> map_option vr_result (findRequest d' 10) = Some (Some confirmed)"
    unfolding i c1 n1 by auto
  from POST_without_otp_records_vote[OF votedDb_token(1) votedDb_hyps votedDb_novote(2) t(2) pv(2),
         of "\<lambda>x. x"]
  have b: "\<exists>d'. POST (\<lambda>x. x) 2000 (votedDb [])
            \<lparr>body_token = Some ''tok-a'', body_otp = Some [], body_vote = Some ''DENY''\<rparr>
          = (d', Ok200 (Some \<lparr>vv_id = 100, vv_verificationRequestId = 10, vv_verifierId = 21,
                              vv_vote = DENY, vv_votedAt = 2000\<rparr>) result_denied)
        \<and> map_option vr_result (findRequest d' 10) = Some (Some denied)"
    unfolding i n2 by auto
  have c: "snd (POST (\<lambda>x. x) 2000 (votedDb [])
            \<lparr>body_token = Some ''tok-a'', body_otp = Some ''000000'', body_vote = Some ''DENY''\<rparr>)
       = Bad400 ''Invalid verification code''"
    by (simp add: POST_def truthy_def parseVote_def verifyOtpAndVote_def votedDb_token Let_def
          demoToken_def verifyOtp_def otpFailed_def)
  from a b c show ?thesis by blast
qed

section \<open>Verification expiry\<close>

lemma find_distinct_key:
  "distinct (map key xs) \<Longrightarrow> x \<in> set xs \<Longrightarrow> find (\<lambda>y. key y = key x) xs = Some x"
  by (induction xs) (auto simp: image_iff)

lemma auditLogs_updates [simp]:
  "auditLogs (updateSwitch i f d) = auditLogs d"
  "auditLogs (updateRequest j g d) = auditLogs d"
  "auditLogs (auditLogCreate a d) = auditLogs d @ [a]"
  by (simp_all add: updateSwitch_def updateRequest_def auditLogCreate_def)

lemma expireRequest_ok:
  assumes "findRequest d (vr_id q) \<noteq> None" and "findSwitch d (vr_switchId q) \<noteq> None"
  shows "expireRequest now q d
           = Inr (auditLogCreate
                    \<lparr>al_entityType = ET_VERIFICATION_REQUEST, al_entityId = Some (vr_id q),
                     al_action = VERIFICATION_EXPIRED, al_metadata = MetaExpiry (vr_switchId q)\<rparr>
                    (updateSwitch (vr_switchId q) (\<lambda>s. s\<lparr>status := PAUSED\<rparr>)
                       (updateRequest (vr_id q)
                          (\<lambda>r. r\<lparr>vr_completedAt := Some now, vr_result := Some expired\<rparr>) d)))"
  using assms
  by (auto simp: expireRequest_def txRequestUpdate_def txSwitchUpdate_def split: option.splits)

lemma expiryLoop_effect:
  assumes "\<forall>q\<in>set rs. findRequest d (vr_id q) \<noteq> None \<and> findSwitch d (vr_switchId q) \<noteq> None"
  shows "\<exists>d'. expiryLoop now rs (d, n, errs) = (d', n + length rs, errs)
           \<and> (\<forall>j. findRequest d' j
                  = (if j \<in> vr_id ` set rs
                     then map_option (\<lambda>r. r\<lparr>vr_completedAt := Some now, vr_result := Some expired\<rparr>)
                            (findRequest d j)
                     else findRequest d j))
           \<and> (\<forall>j. findSwitch d' j
                  = (if j \<in> vr_switchId ` set rs
                     then map_option (\<lambda>s. s\<lparr>status := PAUSED\<rparr>) (findSwitch d j)
                     else findSwitch d j))
           \<and> auditLogs d'
               = auditLogs d
                 @ map (\<lambda>q. \<lparr>al_entityType = ET_VERIFICATION_REQUEST, al_entityId = Some (vr_id q),
                              al_action = VERIFICATION_EXPIRED,
                              al_metadata = MetaExpiry (vr_switchId q)\<rparr>) rs"
  using assms
proof (induction rs arbitrary: d n errs)
  case Nil
  then show ?case by simp
next
  case (Cons q rs)
  let ?E = "\<lambda>r. r\<lparr>vr_completedAt := Some now, vr_result := Some expired\<rparr>"
  let ?P = "\<lambda>s. s\<lparr>status := PAUSED\<rparr>"
  let ?a = "\<lparr>al_entityType = ET_VERIFICATION_REQUEST, al_entityId = Some (vr_id q),
             al_action = VERIFICATION_EXPIRED, al_metadata = MetaExpiry (vr_switchId q)\<rparr>"
  let ?d1 = "auditLogCreate ?a (updateSwitch (vr_switchId q) ?P (updateRequest (vr_id q) ?E d))"
  from Cons.prems have e: "expireRequest now q d = Inr ?d1"
    by (intro expireRequest_ok) simp_all
  have pre: "\<forall>x\<in>set rs. findRequest ?d1 (vr_id x) \<noteq> None \<and> findSwitch ?d1 (vr_switchId x) \<noteq> None"
    using Cons.prems by (auto simp: findRequest_updateRequest findSwitch_updateSwitch)
  from Cons.IH[OF pre, of "Suc n" errs] obtain d' where
    l: "expiryLoop now rs (?d1, Suc n, errs) = (d', Suc n + length rs, errs)"
    and r: "\<forall>j. findRequest d' j = (if j \<in> vr_id ` set rs then map_option ?E (findRequest ?d1 j)
                                      else findRequest ?d1 j)"
    and s: "\<forall>j. findSwitch d' j = (if j \<in> vr_switchId ` set rs then map_option ?P (findSwitch ?d1 j)
                                     else findSwitch ?d1 j)"
    and a: "auditLogs d' = auditLogs ?d1
                 @ map (\<lambda>q. \<lparr>al_entityType = ET_VERIFICATION_REQUEST, al_entityId = Some (vr_id q),
                              al_action = VERIFICATION_EXPIRED,
                              al_metadata = MetaExpiry (vr_switchId q)\<rparr>) rs"
    by blast
  have "expiryLoop now (q # rs) (d, n, errs) = (d', n + length (q # rs), errs)"
    by (simp add: e l)
  moreover have "\<forall>j. findRequest d' j = (if j \<in> vr_id ` set (q # rs) then map_option ?E (findRequest d j)
                                      else findRequest d j)"
    by (auto simp: r findRequest_updateRequest option.map_comp comp_def)
  moreover have "\<forall>j. findSwitch d' j = (if j \<in> vr_switchId ` set (q # rs) then map_option ?P (findSwitch d j)
                                     else findSwitch d j)"
    by (auto simp: s findSwitch_updateSwitch option.map_comp comp_def)
  moreover have "auditLogs d' = auditLogs d
                 @ map (\<lambda>q. \<lparr>al_entityType = ET_VERIFICATION_REQUEST, al_entityId = Some (vr_id q),
                              al_action = VERIFICATION_EXPIRED,
                              al_metadata = MetaExpiry (vr_switchId q)\<rparr>) (q # rs)"
    by (simp add: a)
  ultimately show ?case by blast
qed

text \<open>
  C7. In a store that respects its keys (request ids are unique, every request's switch
  exists), one run of \<open>processVerificationExpiry\<close> completes every request that was open and
  had \<open>expiresAt\<close> before \<open>now\<close>, with \<open>completedAt = now\<close> and result expired, sets the
  status of its switch to PAUSED whatever the status was, and writes the audit row of the
  expiry; no error is reported. The three writes of one request form one unit: when the
  unit throws, none of them is in the store.
\<close>

theorem processVerificationExpiry_pauses:
  assumes "\<forall>x\<in>set (verificationRequests d). findSwitch d (vr_switchId x) \<noteq> None"
    and "distinct (map vr_id (verificationRequests d))"
    and "q \<in> set (verificationRequests d)" and "vr_completedAt q = None" and "vr_expiresAt q < now"
    and "findSwitch d (vr_switchId q) = Some sw"
  shows "findRequest (fst (processVerificationExpiry now d)) (vr_id q)
           = Some (q\<lparr>vr_completedAt := Some now, vr_result := Some expired\<rparr>)
       \<and> findSwitch (fst (processVerificationExpiry now d)) (vr_switchId q)
           = Some (sw\<lparr>status := PAUSED\<rparr>)
       \<and> \<lparr>al_entityType = ET_VERIFICATION_REQUEST, al_entityId = Some (vr_id q),
          al_action = VERIFICATION_EXPIRED, al_metadata = MetaExpiry (vr_switchId q)\<rparr>
           \<in> set (auditLogs (fst (processVerificationExpiry now d)))
       \<and> vx_errors (snd (processVerificationExpiry now d)) = []
       \<and> vx_expired (snd (processVerificationExpiry now d))
           = vx_processed (snd (processVerificationExpiry now d))
       \<and> (\<forall>x e n errs. expireRequest now x d = Inl e \<longrightarrow>
             expiryLoop now [x] (d, n, errs) = (d, n, errs @ [ErrorExpiringRequest (vr_id x) e]))"
proof -
  let ?rs = "expiredRequests now d"
  have fq: "findRequest d (vr_id x) = Some x" if "x \<in> set (verificationRequests d)" for x
    using find_distinct_key[OF assms(2) that] by (simp add: findRequest_def)
  have pre: "\<forall>x\<in>set ?rs. findRequest d (vr_id x) \<noteq> None \<and> findSwitch d (vr_switchId x) \<noteq> None"
    using assms(1) fq by (simp add: expiredRequests_def)
  have qin: "q \<in> set ?rs" using assms(3-5) by (simp add: expiredRequests_def)
  from expiryLoop_effect[OF pre, of now 0 "[]"] obtain d' where
    l: "expiryLoop now ?rs (d, 0, []) = (d', length ?rs, [])"
    and r: "\<forall>j. findRequest d' j
                  = (if j \<in> vr_id ` set ?rs
                     then map_option (\<lambda>r. r\<lparr>vr_completedAt := Some now, vr_result := Some expired\<rparr>)
                            (findRequest d j)
                     else findRequest d j)"
    and s: "\<forall>j. findSwitch d' j
                  = (if j \<in> vr_switchId ` set ?rs
                     then map_option (\<lambda>s. s\<lparr>status := PAUSED\<rparr>) (findSwitch d j)
                     else findSwitch d j)"
    and a: "auditLogs d'
               = auditLogs d
                 @ map (\<lambda>q. \<lparr>al_entityType = ET_VERIFICATION_REQUEST, al_entityId = Some (vr_id q),
                              al_action = VERIFICATION_EXPIRED,
                              al_metadata = MetaExpiry (vr_switchId q)\<rparr>) ?rs"
    by auto
  have p: "processVerificationExpiry now d
             = (d', \<lparr>vx_processed = length ?rs, vx_expired = length ?rs, vx_errors = []\<rparr>)"
    by (simp add: processVerificationExpiry_def Let_def l)
  have 1: "findRequest d' (vr_id q) = Some (q\<lparr>vr_completedAt := Some now, vr_result := Some expired\<rparr>)"
    using qin fq[OF assms(3)] by (simp add: r)
  have 2: "findSwitch d' (vr_switchId q) = Some (sw\<lparr>status := PAUSED\<rparr>)"
    using qin assms(6) by (simp add: s)
  have 3: "\<lparr>al_entityType = ET_VERIFICATION_REQUEST, al_entityId = Some (vr_id q),
          al_action = VERIFICATION_EXPIRED, al_metadata = MetaExpiry (vr_switchId q)\<rparr>
           \<in> set (auditLogs d')"
    using qin by (simp add: a image_iff) blast
  show ?thesis
    by (simp add: p 1 2 3)
qed

theorem processVerificationExpiry_pauses_witness:
  "findRequest (fst (processVerificationExpiry 6000 (votingDb EXECUTED))) 10
     = Some (demoRequest\<lparr>vr_completedAt := Some 6000, vr_result := Some expired\<rparr>)
   \<and> findSwitch (fst (processVerificationExpiry 6000 (votingDb EXECUTED))) 5 = Some (demoSwitch PAUSED)
   \<and> vx_errors (snd (processVerificationExpiry 6000 (votingDb EXECUTED))) = []
   \<and> vx_expired (snd (processVerificationExpiry 6000 (votingDb EXECUTED)))
       = vx_processed (snd (processVerificationExpiry 6000 (votingDb EXECUTED)))"
proof -
  have h: "\<forall>x\<in>set (verificationRequests (votingDb EXECUTED)). findSwitch (votingDb EXECUTED) (vr_switchId x) \<noteq> None"
    "distinct (map vr_id (verificationRequests (votingDb EXECUTED)))"
    "demoRequest \<in> set (verificationRequests (votingDb EXECUTED))"
    "vr_completedAt demoRequest = None" "vr_expiresAt demoRequest < 6000"
    "findSwitch (votingDb EXECUTED) (vr_switchId demoRequest) = Some (demoSwitch EXECUTED)"
    by (simp_all add: voting_defs findSwitch_def)
  have i: "vr_id demoRequest = 10" "vr_switchId demoRequest = 5"
    "(demoSwitch EXECUTED)\<lparr>status := PAUSED\<rparr> = demoSwitch PAUSED"
    by (simp_all add: demoRequest_def demoSwitch_def)
  from processVerificationExpiry_pauses[OF h] show ?thesis
    unfolding i by blast
qed

section \<open>Final delivery and the execution pass\<close>

lemma find_None_filter: "find P xs = None \<Longrightarrow> filter P xs = []"
  by (induction xs) (auto split: if_splits)

lemma sentCount_zero: "findSentDelivery d m = None \<Longrightarrow> sentCount d m = 0"
  by (simp add: findSentDelivery_def sentCount_def find_None_filter)

lemma map_upd_fresh:
  "\<forall>e\<in>set xs. key e \<noteq> i \<Longrightarrow> map (\<lambda>e. if key e = i then f e else e) xs = xs"
  by (induction xs) auto

lemma sendFinalMessage_existing:
  "findSentDelivery d m = Some e \<Longrightarrow> sendFinalMessage cr tr d m = Inr (d, True, ed_id e)"
  by (simp add: sendFinalMessage_def)

text \<open>What a call that gets past its checks leaves in the delivery table.\<close>

lemma sendFinalMessage_new:
  assumes "deliveryIdsFresh d" and "findSentDelivery d m = None"
    and "sendFinalMessage cr tr d m = Inr (d', ok, i)"
  shows "\<exists>row. emailDeliveries d' = emailDeliveries d @ [row] \<and> ed_id row = nextId d
            \<and> ed_messageId row = m \<and> nextId d' = Suc (nextId d)
            \<and> switches d' = switches d \<and> messages d' = messages d \<and> recipients d' = recipients d"
proof -
  have f: "map (\<lambda>e. if ed_id e = nextId d then g e else e) (emailDeliveries d) = emailDeliveries d" for g
    using assms(1) by (intro map_upd_fresh) (auto simp: deliveryIdsFresh_def list_all_iff)
  show ?thesis
    using assms(2,3)
    by (auto simp: sendFinalMessage_def deliveryCreate_def sendEmail_def deliveryUpdate_def
                   auditLogCreate_def Let_def f
             split: option.splits sum.splits if_splits)
qed

lemma sendFinalMessage_inv:
  assumes "deliveryIdsFresh d" and "sendFinalMessage cr tr d m = Inr (d', ok, i)"
  shows "deliveryIdsFresh d' \<and> (\<forall>m'. sentCount d' m' \<le> max 1 (sentCount d m'))
         \<and> switches d' = switches d \<and> messages d' = messages d \<and> recipients d' = recipients d"
proof (cases "findSentDelivery d m")
  case (Some e)
  with assms show ?thesis by (simp add: sendFinalMessage_existing)
next
  case None
  from sendFinalMessage_new[OF assms(1) None assms(2)] obtain row where
    r: "emailDeliveries d' = emailDeliveries d @ [row]" "ed_id row = nextId d"
       "ed_messageId row = m" "nextId d' = Suc (nextId d)"
       "switches d' = switches d" "messages d' = messages d" "recipients d' = recipients d"
    by blast
  have "deliveryIdsFresh d'"
    using assms(1) r by (auto simp: deliveryIdsFresh_def list_all_iff)
  moreover have "sentCount d' m' \<le> max 1 (sentCount d m')" for m'
    using sentCount_zero[OF None] r by (auto simp: sentCount_def)
  ultimately show ?thesis using r by simp
qed

lemma sendInv_refl: "deliveryIdsFresh d \<Longrightarrow> sendInv d d"
  by (simp add: sendInv_def)

lemma sendInv_step:
  assumes "sendInv d0 d" and "sendFinalMessage cr tr d m = Inr (d', ok, i)"
  shows "sendInv d0 d'"
proof -
  from assms(1) have f: "deliveryIdsFresh d" and b: "\<And>m. sentCount d m \<le> max 1 (sentCount d0 m)"
    by (simp_all add: sendInv_def)
  from sendFinalMessage_inv[OF f assms(2)]
  have f': "deliveryIdsFresh d'" and b': "\<And>m. sentCount d' m \<le> max 1 (sentCount d m)" by simp_all
  have "sentCount d' m \<le> max 1 (sentCount d0 m)" for m
    using b[of m] b'[of m] by linarith
  with f' show ?thesis by (simp add: sendInv_def)
qed

lemma sendLoop_inv:
  "sendInv d0 d \<Longrightarrow> sendInv d0 (fst (fst (sendLoop cr tr sid ms (d, allSent, errs))))"
proof (induction ms arbitrary: d allSent errs)
  case Nil
  then show ?case by simp
next
  case (Cons x ms)
  show ?case
  proof (cases x)
    case None
    with Cons show ?thesis by simp
  next
    case (Some m)
    show ?thesis
    proof (cases "sendFinalMessage cr tr d (msg_id m)")
      case (Inl e)
      with Some Cons.prems show ?thesis by simp
    next
      case (Inr res)
      obtain d' ok i where res: "res = (d', ok, i)" by (cases res) auto
      from sendInv_step[OF Cons.prems Inr[unfolded res]] have "sendInv d0 d'" .
      from Cons.IH[OF this] show ?thesis by (simp add: Some Inr res)
    qed
  qed
qed

lemma sendInv_cong:
  "emailDeliveries d' = emailDeliveries d \<Longrightarrow> nextId d' = nextId d \<Longrightarrow> sendInv d0 d \<Longrightarrow> sendInv d0 d'"
  by (simp add: sendInv_def deliveryIdsFresh_def sentCount_def)

lemma transition_deliveries:
  "emailDeliveries (fst (transitionSwitchState now d i t)) = emailDeliveries d"
  "nextId (fst (transitionSwitchState now d i t)) = nextId d"
  by (simp_all add: transitionSwitchState_def Let_def auditLogCreate_def updateSwitch_def
        split: option.splits)

lemma executeSwitch_inv:
  assumes "sendInv d0 (fst st)"
  shows "sendInv d0 (fst (executeSwitch cr tr now swm st))"
proof -
  obtain sw msgs where swm: "swm = (sw, msgs)" by (cases swm)
  obtain d n errs where st: "st = (d, n, errs)" by (cases st)
  obtain d1 allSent errs1 x where l: "sendLoop cr tr (sw_id sw) msgs (d, True, errs) = ((d1, allSent, errs1), x)"
    by (metis prod.exhaust)
  from assms st have "sendInv d0 d" by simp
  from sendLoop_inv[OF this, of cr tr "sw_id sw" msgs True errs] l have i1: "sendInv d0 d1" by simp
  show ?thesis
  proof (cases x)
    case (Some e)
    with i1 show ?thesis by (simp add: executeSwitch_def swm st l)
  next
    case None
    obtain d2 r where t: "transitionSwitchState now d1 (sw_id sw) EXECUTED = (d2, r)" by (cases "transitionSwitchState now d1 (sw_id sw) EXECUTED")
    from transition_deliveries[of now d1 "sw_id sw" EXECUTED] t
    have "emailDeliveries d2 = emailDeliveries d1" "nextId d2 = nextId d1" by simp_all
    from sendInv_cong[OF this i1] have i2: "sendInv d0 d2" .
    have i3: "sendInv d0 (auditLogCreate a d2)" for a
      by (rule sendInv_cong[OF _ _ i2]) (simp_all add: auditLogCreate_def)
    show ?thesis using i2 i3 by (simp add: executeSwitch_def swm st l None t)
  qed
qed

lemma foldl_executeSwitch_inv:
  "sendInv d0 (fst st) \<Longrightarrow>
   sendInv d0 (fst (foldl (\<lambda>st swm. executeSwitch cr tr now swm st) st ready))"
proof (induction ready arbitrary: st)
  case Nil then show ?case by simp
next
  case (Cons swm ready)
  from Cons.IH[OF executeSwitch_inv[OF Cons.prems]] show ?case by simp
qed

lemma executeVerifiedSwitches_inv:
  assumes "sendInv d0 d"
  shows "sendInv d0 (fst (executeVerifiedSwitches cr tr now d))"
proof -
  from foldl_executeSwitch_inv[of d0 "(d, 0, [])" cr tr now "readyForExecution now d"] assms
  show ?thesis
    by (auto simp: executeVerifiedSwitches_def Let_def split: prod.splits)
qed

text \<open>
  C3. If a delivery row with status SENT exists for a message, \<open>sendFinalMessage\<close> returns
  success with the id of that row and changes nothing: no row is created and no mail is
  handed to the transport. In a store whose delivery ids lie below the id counter, two
  runs of the execution pass, whatever the transport answers and whenever they run, leave
  a message with at most one SENT row, or with as many as it had before the runs.
\<close>

theorem final_delivery_at_most_once:
  assumes "deliveryIdsFresh d"
  shows "(\<forall>e. findSentDelivery d m = Some e \<longrightarrow> sendFinalMessage cr tr d m = Inr (d, True, ed_id e))
       \<and> sentCount (fst (executeVerifiedSwitches cr tr2 now2
                           (fst (executeVerifiedSwitches cr tr1 now1 d)))) m
           \<le> max 1 (sentCount d m)"
proof -
  from executeVerifiedSwitches_inv[OF executeVerifiedSwitches_inv[OF sendInv_refl[OF assms]]]
  have "sendInv d (fst (executeVerifiedSwitches cr tr2 now2 (fst (executeVerifiedSwitches cr tr1 now1 d))))" .
  then show ?thesis by (simp add: sendInv_def sendFinalMessage_existing)
qed


section \<open>Message confidentiality\<close>

lemma splitOn_nonempty [simp]: "splitOn c s \<noteq> []"
  by (induction s) (auto split: list.splits)

lemma splitOn_free: "c \<notin> set p \<Longrightarrow> splitOn c p = [p]"
  by (induction p) auto

lemma splitOn_append: "c \<notin> set p \<Longrightarrow> splitOn c (p @ c # rest) = p # splitOn c rest"
  by (induction p) (auto split: list.splits)

lemma splitOn_join4:
  assumes "c \<notin> set p1" "c \<notin> set p2" "c \<notin> set p3" "c \<notin> set p4"
  shows "splitOn c (joinWith c [p1, p2, p3, p4]) = [p1, p2, p3, p4]"
  using assms by (simp add: splitOn_append splitOn_free)

lemma splitOn_snoc: "splitOn c (s @ [c]) = splitOn c s @ [[]]"
  by (induction s) (auto split: list.splits)

lemma splitOn_trailing: "[] \<in> set (splitOn c (s @ [c]))"
  by (simp add: splitOn_snoc)

lemma joinWith4_trailing: "joinWith c [p1, p2, p3, []] = (p1 @ c # p2 @ c # p3) @ [c]"
  by simp


lemma decrypt_structure:
  assumes "length (splitOn CHR '':'' b) \<noteq> 4 \<or> [] \<in> set (splitOn CHR '':'' b)"
  shows "decrypt cr b = Inl (Error ''Decryption failed'')"
proof -
  have "\<exists>e. decryptBody cr b = Inl e"
    using assms
    by (auto simp: decryptBody_def split: sum.splits list.splits)
  then show ?thesis by (auto simp: decrypt_def)
qed

text \<open>On a blob of four non-empty parts \<open>decrypt\<close> adds no check of its own to those of
  the primitive; in particular it does not look at the length of the tag.\<close>

lemma decrypt_parts:
  assumes "getEncryptionKey cr = Inr key"
    and "splitOn CHR '':'' b = [p1, p2, p3, p4]"
    and "p1 \<noteq> []" "p2 \<noteq> []" "p3 \<noteq> []" "p4 \<noteq> []"
  shows "decrypt cr b
           = (case gcmOpen cr (scryptSync cr key (fromBase64 cr p1) KEY_LENGTH) (fromBase64 cr p2)
                     (fromBase64 cr p3) (fromBase64 cr p4) of
                Inl e \<Rightarrow> Inl (Error ''Decryption failed'')
              | Inr bytes \<Rightarrow> Inr (utf8Decode cr bytes))"
  using assms by (simp add: decrypt_def decryptBody_def Let_def split: sum.splits)

lemma encrypt_blob:
  assumes "getEncryptionKey cr = Inr key"
    and "gcmSeal cr (scryptSync cr key salt KEY_LENGTH) iv (utf8Encode x) = (ct, tag)"
  shows "encrypt cr iv salt x
           = Inr (joinWith CHR '':'' [toBase64 cr salt, toBase64 cr iv, toBase64 cr tag, toBase64 cr ct],
                  toBase64 cr iv)"
  using assms by (simp add: encrypt_def Let_def)

text \<open>When the encoded ciphertext is empty, as it is for the empty plaintext, \<open>decrypt\<close>
  rejects the blob that \<open>encrypt\<close> made.\<close>

lemma decrypt_rejects_empty_ciphertext:
  assumes "getEncryptionKey cr = Inr key"
    and "gcmSeal cr (scryptSync cr key salt KEY_LENGTH) iv (utf8Encode x) = (ct, tag)"
    and "toBase64 cr ct = []"
  shows "\<exists>blob ivB64. encrypt cr iv salt x = Inr (blob, ivB64)
          \<and> decrypt cr blob = Inl (Error ''Decryption failed'')"
proof -
  let ?blob = "joinWith CHR '':'' [toBase64 cr salt, toBase64 cr iv, toBase64 cr tag, toBase64 cr ct]"
  have e: "encrypt cr iv salt x = Inr (?blob, toBase64 cr iv)"
    by (rule encrypt_blob[OF assms(1,2)])
  from assms(3) have "[] \<in> set (splitOn CHR '':'' ?blob)"
    using splitOn_trailing[of "CHR '':''" "toBase64 cr salt @ CHR '':'' # toBase64 cr iv @ CHR '':'' # toBase64 cr tag"]
    by simp
  then have "decrypt cr ?blob = Inl (Error ''Decryption failed'')"
    by (intro decrypt_structure) simp
  with e show ?thesis by blast
qed



text \<open>
  A shortened tag. \<open>decrypt\<close> hands the decoded tag to the primitive as it is. When the
  primitive accepts the first four bytes of the tag in place of the tag, as Node's
  decipher does when \<open>authTagLength\<close> is not set, the blob with the shortened tag
  decrypts to the plaintext.
\<close>

lemma decrypt_accepts_shortened_tag:
  assumes "getEncryptionKey cr = Inr key"
    and "gcmOpen cr (scryptSync cr key salt KEY_LENGTH) iv (take 4 tag) ct = Inr (utf8Encode x)"
    and "utf8Decode cr (utf8Encode x) = x"
    and "\<forall>b\<in>{salt, iv, take 4 tag, ct}. fromBase64 cr (toBase64 cr b) = b \<and> toBase64 cr b \<noteq> []
                                    \<and> CHR '':'' \<notin> set (toBase64 cr b)"
  shows "decrypt cr (joinWith CHR '':''
                       [toBase64 cr salt, toBase64 cr iv, toBase64 cr (take 4 tag), toBase64 cr ct])
           = Inr x"
proof -
  let ?blob = "joinWith CHR '':''
                 [toBase64 cr salt, toBase64 cr iv, toBase64 cr (take 4 tag), toBase64 cr ct]"
  from assms(4) have s: "splitOn CHR '':'' ?blob
      = [toBase64 cr salt, toBase64 cr iv, toBase64 cr (take 4 tag), toBase64 cr ct]"
    by (intro splitOn_join4) simp_all
  from assms(4) have ne: "toBase64 cr salt \<noteq> []" "toBase64 cr iv \<noteq> []"
    "toBase64 cr (take 4 tag) \<noteq> []" "toBase64 cr ct \<noteq> []" by simp_all
  from assms(4) have rt: "fromBase64 cr (toBase64 cr salt) = salt" "fromBase64 cr (toBase64 cr iv) = iv"
    "fromBase64 cr (toBase64 cr (take 4 tag)) = take 4 tag" "fromBase64 cr (toBase64 cr ct) = ct"
    by simp_all
  show ?thesis
    unfolding decrypt_parts[OF assms(1) s ne] rt assms(2) by (simp add: assms(3))
qed

lemma decrypt_accepts_shortened_tag_example:
  "encrypt demoCryptoNode ''i'' ''s'' helloText = Inr (''s:i:TTTTTTTTTTTTTTTT:hello'', ''i'')
   \<and> decrypt demoCryptoNode ''s:i:TTTT:hello'' = Inr helloText
   \<and> decrypt demoCryptoNode ''s:i:TTTX:hello'' = Inl (Error ''Decryption failed'')"
  by code_simp




section \<open>The results on the example stores\<close>

theorem final_delivery_at_most_once_witness:
  "sendFinalMessage demoCrypto okTransport sentDb 50 = Inr (sentDb, True, 90)
   \<and> sentCount (fst (executeVerifiedSwitches demoCrypto okTransport 3000
                       (fst (executeVerifiedSwitches demoCrypto okTransport 2000
                               (deliveryDb ''s:i:T:hello'' ''s:i:T:bye''))))) 50 \<le> 1
   \<and> sentCount (fst (executeVerifiedSwitches demoCrypto okTransport 2000
                       (deliveryDb ''s:i:T:hello'' ''s:i:T:bye''))) 50 = 1"
proof -
  let ?d = "deliveryDb ''s:i:T:hello'' ''s:i:T:bye''"
  let ?row = "\<lparr>ed_id = 90, ed_messageId = 50, ed_status = SENT,
               ed_providerMessageId = Some ''provider-id'', ed_errorMessage = None,
               ed_retryCount = 0\<rparr>"
  have f: "deliveryIdsFresh ?d" by (simp add: deliveryIdsFresh_def deliveryDb_def emptyDb_def)
  have z: "sentCount ?d 50 = 0" by (simp add: sentCount_def deliveryDb_def emptyDb_def)
  from final_delivery_at_most_once[OF f, where m = 50 and cr = demoCrypto and ?tr1.0 = okTransport
         and ?tr2.0 = okTransport and ?now1.0 = 2000 and ?now2.0 = 3000]
  have a: "sentCount (fst (executeVerifiedSwitches demoCrypto okTransport 3000
                     (fst (executeVerifiedSwitches demoCrypto okTransport 2000 ?d)))) 50 \<le> 1"
    by (simp add: z)
  have b: "sentCount (fst (executeVerifiedSwitches demoCrypto okTransport 2000 ?d)) 50 = 1"
    by code_simp
  have fs: "deliveryIdsFresh sentDb"
    by (simp add: deliveryIdsFresh_def sentDb_def deliveryDb_def emptyDb_def)
  have e: "findSentDelivery sentDb 50 = Some ?row"
    by (simp add: findSentDelivery_def sentDb_def)
  from final_delivery_at_most_once[OF fs, where m = 50 and cr = demoCrypto and tr = okTransport] e
  have "sendFinalMessage demoCrypto okTransport sentDb 50 = Inr (sentDb, True, ed_id ?row)"
    by blast
  then have c: "sendFinalMessage demoCrypto okTransport sentDb 50 = Inr (sentDb, True, 90)"
    by simp
  from a b c show ?thesis by blast
qed

text \<open>
  C2 on examples. With a transport that refuses every mail, both messages are attempted,
  each failure adds an error entry, and the switch becomes EXECUTED. When the first
  message cannot be decrypted, \<open>sendFinalMessage\<close> throws: the second message is never
  attempted, no delivery row is written, the switch stays VERIFIED, and the only error
  entry is the one of the outer \<open>catch\<close>.
\<close>

theorem executeVerifiedSwitches_decrypt_failure:
  "(let (d', rep) = executeVerifiedSwitches demoCrypto downTransport 2000
                      (deliveryDb ''s:i:T:hello'' ''s:i:T:bye'')
    in map status (switches d') = [EXECUTED] \<and> length (outbox d') = 2
       \<and> map ed_status (emailDeliveries d') = [FAILED, FAILED]
       \<and> ex_executed rep = 1
       \<and> ex_errors rep = [FailedToSendMessage 50 5, FailedToSendMessage 51 5])
   \<and> (let (d', rep) = executeVerifiedSwitches demoCrypto okTransport 2000
                        (deliveryDb ''garbage'' ''s:i:T:bye'')
      in map status (switches d') = [VERIFIED] \<and> outbox d' = [] \<and> emailDeliveries d' = []
         \<and> ex_executed rep = 0
         \<and> ex_errors rep = [ErrorExecutingSwitch 5 (Error ''Decryption failed'')])"
  by code_simp

end
